theory Spec2Isabelle
  imports Complex_Main
begin

section \<open>Floating-point values\<close>

text \<open>
  The arrays of the kernel hold numpy float64 values. They are modelled as the reals
  extended by the three special values of IEEE 754: both infinities and NaN. The
  arithmetic of the special values is the one numpy applies under its default error
  state, where a division by zero answers an infinity or NaN (with a warning) and raises
  nothing. The rounding of the mantissa and the sign of zero are not modelled: \<open>Fin\<close>
  carries an exact real. Of the range of float64 the model keeps the one place where it
  decides what the kernel answers for a pair of equal rows: a power \<open>x ** n\<close> of a real
  \<open>x\<close> that is too small for float64 is 0, and one that is too large is an infinity
  (\<open>f64_range\<close>); the lengthscale is the only number the kernel raises to a power.
\<close>

datatype fl = Fin real | PInf | NInf | NaN

fun is_fin :: "fl \<Rightarrow> bool" where
  "is_fin (Fin a) = True"
| "is_fin PInf = False"
| "is_fin NInf = False"
| "is_fin NaN = False"

fun fneg :: "fl \<Rightarrow> fl" where
  "fneg (Fin a) = Fin (- a)"
| "fneg PInf = NInf"
| "fneg NInf = PInf"
| "fneg NaN = NaN"

fun fadd :: "fl \<Rightarrow> fl \<Rightarrow> fl" where
  "fadd (Fin a) (Fin b) = Fin (a + b)"
| "fadd (Fin a) PInf = PInf"
| "fadd (Fin a) NInf = NInf"
| "fadd PInf (Fin b) = PInf"
| "fadd PInf PInf = PInf"
| "fadd PInf NInf = NaN"
| "fadd NInf (Fin b) = NInf"
| "fadd NInf PInf = NaN"
| "fadd NInf NInf = NInf"
| "fadd NaN y = NaN"
| "fadd x NaN = NaN"

definition fsub :: "fl \<Rightarrow> fl \<Rightarrow> fl" where
  "fsub x y = fadd x (fneg y)"

fun fmul :: "fl \<Rightarrow> fl \<Rightarrow> fl" where
  "fmul (Fin a) (Fin b) = Fin (a * b)"
| "fmul (Fin a) PInf = (if a = 0 then NaN else if 0 < a then PInf else NInf)"
| "fmul (Fin a) NInf = (if a = 0 then NaN else if 0 < a then NInf else PInf)"
| "fmul PInf (Fin b) = (if b = 0 then NaN else if 0 < b then PInf else NInf)"
| "fmul NInf (Fin b) = (if b = 0 then NaN else if 0 < b then NInf else PInf)"
| "fmul PInf PInf = PInf"
| "fmul PInf NInf = NInf"
| "fmul NInf PInf = NInf"
| "fmul NInf NInf = PInf"
| "fmul NaN y = NaN"
| "fmul x NaN = NaN"

fun fdiv :: "fl \<Rightarrow> fl \<Rightarrow> fl" where
  "fdiv (Fin a) (Fin b) =
     (if b = 0 then (if a = 0 then NaN else if 0 < a then PInf else NInf)
      else Fin (a / b))"
| "fdiv (Fin a) PInf = Fin 0"
| "fdiv (Fin a) NInf = Fin 0"
| "fdiv PInf (Fin b) = (if 0 \<le> b then PInf else NInf)"
| "fdiv NInf (Fin b) = (if 0 \<le> b then NInf else PInf)"
| "fdiv PInf PInf = NaN"
| "fdiv PInf NInf = NaN"
| "fdiv NInf PInf = NaN"
| "fdiv NInf NInf = NaN"
| "fdiv NaN y = NaN"
| "fdiv x NaN = NaN"

fun fsqrt :: "fl \<Rightarrow> fl" where
  "fsqrt (Fin a) = (if 0 \<le> a then Fin (sqrt a) else NaN)"
| "fsqrt PInf = PInf"
| "fsqrt NInf = NaN"
| "fsqrt NaN = NaN"

fun fexp :: "fl \<Rightarrow> fl" where
  "fexp (Fin a) = Fin (exp a)"
| "fexp PInf = PInf"
| "fexp NInf = Fin 0"
| "fexp NaN = NaN"

definition fsquare :: "fl \<Rightarrow> fl" where
  \<comment> \<open>\<open>np.square\<close>\<close>
  "fsquare x = fmul x x"

definition f64_range :: "real \<Rightarrow> fl" where
  \<comment> \<open>a real result as float64 holds it, up to the rounding of the mantissa: the
      least positive float64 is \<open>2\<^sup>-\<^sup>1\<^sup>0\<^sup>7\<^sup>4\<close>, and a magnitude of at most half of it
      rounds to 0; the greatest is \<open>2\<^sup>1\<^sup>0\<^sup>2\<^sup>4 - 2\<^sup>9\<^sup>7\<^sup>1\<close>, and a magnitude of at least
      \<open>2\<^sup>1\<^sup>0\<^sup>2\<^sup>4 - 2\<^sup>9\<^sup>7\<^sup>0\<close> rounds to an infinity\<close>
  "f64_range r =
     (if abs r \<le> 1 / 2 ^ 1075 then Fin 0
      else if 2 ^ 1024 - 2 ^ 970 \<le> r then PInf
      else if r \<le> - (2 ^ 1024 - 2 ^ 970) then NInf
      else Fin r)"

fun fpow :: "fl \<Rightarrow> nat \<Rightarrow> fl" where
  \<comment> \<open>\<open>x ** n\<close> for a literal exponent \<open>n\<close>: \<open>1e-170 ** 2\<close> is \<open>0.0\<close>\<close>
  "fpow (Fin a) n = f64_range (a ^ n)"
| "fpow PInf n = (if n = 0 then Fin 1 else PInf)"
| "fpow NInf n = (if n = 0 then Fin 1 else if even n then PInf else NInf)"
| "fpow NaN n = (if n = 0 then Fin 1 else NaN)"

fun pow_in_range :: "nat \<Rightarrow> fl \<Rightarrow> bool" where
  \<comment> \<open>a real number whose \<open>n\<close>-th power does not round to 0\<close>
  "pow_in_range n (Fin a) = (1 / 2 ^ 1075 < abs (a ^ n))"
| "pow_in_range n PInf = False"
| "pow_in_range n NInf = False"
| "pow_in_range n NaN = False"

definition fne :: "fl \<Rightarrow> fl \<Rightarrow> bool" where
  \<comment> \<open>\<open>!=\<close> on floats: NaN differs from everything, itself included\<close>
  "fne x y = (x = NaN \<or> y = NaN \<or> x \<noteq> y)"

definition feq :: "fl \<Rightarrow> fl \<Rightarrow> bool" where
  \<comment> \<open>\<open>==\<close> on floats\<close>
  "feq x y = (\<not> fne x y)"

definition fsum :: "fl list \<Rightarrow> fl" where
  \<comment> \<open>\<open>np.sum\<close> of a vector; the empty sum is 0\<close>
  "fsum xs = foldr fadd xs (Fin 0)"

section \<open>Arrays and errors\<close>

type_synonym vec = "fl list"

text \<open>
  A two-dimensional array is its list of rows together with its number of columns, so
  that an array without rows still has a shape. \<open>wf_array2\<close> says that the rows have
  that many entries, which every numpy array satisfies.
\<close>

record array2 =
  ncols :: nat
  rows :: "fl list list"

definition wf_array2 :: "array2 \<Rightarrow> bool" where
  "wf_array2 A = list_all (\<lambda>r. length r = ncols A) (rows A)"

definition nrows :: "array2 \<Rightarrow> nat" where
  "nrows A = length (rows A)"

definition real_array :: "array2 \<Rightarrow> bool" where
  \<comment> \<open>every entry is a real number: no infinity, no NaN\<close>
  "real_array A = list_all (list_all is_fin) (rows A)"

definition zeros2 :: "nat \<Rightarrow> nat \<Rightarrow> array2" where
  \<comment> \<open>\<open>np.zeros((n,m))\<close>\<close>
  "zeros2 n m = \<lparr>ncols = m, rows = replicate n (replicate m (Fin 0))\<rparr>"

fun nonzero_fin :: "fl \<Rightarrow> bool" where
  "nonzero_fin (Fin a) = (a \<noteq> 0)"
| "nonzero_fin PInf = False"
| "nonzero_fin NInf = False"
| "nonzero_fin NaN = False"

fun close_to :: "real \<Rightarrow> fl \<Rightarrow> real \<Rightarrow> bool" where
  \<comment> \<open>a float lies within a tolerance of an expected real\<close>
  "close_to tol (Fin a) e = (abs (a - e) \<le> tol)"
| "close_to tol PInf e = False"
| "close_to tol NInf e = False"
| "close_to tol NaN e = False"

text \<open>An array of any rank, as far as the constructor looks at it: its shape and its entries.\<close>

record ndarray =
  shape :: "nat list"
  data :: "fl list"

datatype error = AssertionError | IndexError | ValueError | QuadError

section \<open>The exponential kernel: construction and parameters\<close>

record exponential =
  D :: int
  ARD :: bool
  Nparam :: int
  name :: string
  variance :: fl
  lengthscale :: vec

definition set_params :: "exponential \<Rightarrow> vec \<Rightarrow> error + exponential" where
  \<comment> \<open>\<open>_set_params\<close>: the assertion, then \<open>x[0]\<close> and \<open>x[1:]\<close>\<close>
  "set_params k x =
     (if int (length x) \<noteq> Nparam k then Inl AssertionError
      else case x of
             [] \<Rightarrow> Inl IndexError
           | v # rest \<Rightarrow> Inr (k\<lparr>variance := v, lengthscale := rest\<rparr>))"

definition get_params :: "exponential \<Rightarrow> vec" where
  \<comment> \<open>\<open>_get_params\<close>: \<open>np.hstack((self.variance, self.lengthscale))\<close>\<close>
  "get_params k = variance k # lengthscale k"

definition init_lengthscale :: "int \<Rightarrow> ndarray option \<Rightarrow> bool \<Rightarrow> error + vec" where
  \<comment> \<open>the two branches of \<open>__init__\<close> that check or default the lengthscale;
      \<open>np.ones\<close> of a negative size raises ValueError\<close>
  "init_lengthscale d ls ard =
     (if \<not> ard then
        (case ls of
           Some a \<Rightarrow> if shape a = [1] then Inr (data a) else Inl AssertionError
         | None \<Rightarrow> Inr (replicate 1 (Fin 1)))
      else
        (case ls of
           Some a \<Rightarrow> if map int (shape a) = [d] then Inr (data a) else Inl AssertionError
         | None \<Rightarrow> if d < 0 then Inl ValueError else Inr (replicate (nat d) (Fin 1))))"

definition init :: "int \<Rightarrow> fl \<Rightarrow> ndarray option \<Rightarrow> bool \<Rightarrow> error + exponential" where
  \<comment> \<open>\<open>__init__\<close>. The object has no \<open>variance\<close> and \<open>lengthscale\<close> attribute before
      \<open>_set_params\<close> assigns them; the record carries the values that it is about to
      assign.\<close>
  "init d var ls ard =
     (case init_lengthscale d ls ard of
        Inl e \<Rightarrow> Inl e
      | Inr l \<Rightarrow>
          set_params
            \<lparr>D = d, ARD = ard, Nparam = (if \<not> ard then 2 else d + 1),
             name = (if \<not> ard then ''exp'' else ''exp_ARD''),
             variance = var, lengthscale = l\<rparr>
            (var # l))"

text \<open>
  What the constructor establishes and \<open>_set_params\<close> keeps: the parameter count is the
  one of the mode, and the lengthscale holds all parameters but the first.
\<close>

definition exponential_inv :: "exponential \<Rightarrow> bool" where
  "exponential_inv k =
     (Nparam k = (if ARD k then D k + 1 else 2) \<and>
      int (length (lengthscale k)) + 1 = Nparam k)"

fun set_params_all :: "exponential \<Rightarrow> vec list \<Rightarrow> error + exponential" where
  \<comment> \<open>a caller (the optimizer) setting one parameter vector after the other\<close>
  "set_params_all k [] = Inr k"
| "set_params_all k (v # vs) =
     (case set_params k v of Inl e \<Rightarrow> Inl e | Inr k' \<Rightarrow> set_params_all k' vs)"

section \<open>The exponential kernel: covariance and derivatives\<close>

text \<open>
  The operations take their arrays in the shapes of the kernel's contract: \<open>X\<close> is
  \<open>N \<times> D\<close>, \<open>X2\<close> is \<open>M \<times> D\<close>, \<open>partial\<close> and the target of \<open>K\<close> are \<open>N \<times> M\<close>, the
  target of \<open>dK_dX\<close> is \<open>N \<times> D\<close>, and the lengthscale has one entry (which numpy
  broadcasts over the columns) or \<open>D\<close> entries. For other shapes numpy raises ValueError
  where they cannot be broadcast, and that is the model's answer for all of them; the few
  it would broadcast instead (an axis of length one) are outside the contract and not
  modelled, and neither is the content of a target at the moment an exception leaves
  a call.
\<close>

definition X2_or :: "array2 \<Rightarrow> array2 option \<Rightarrow> array2" where
  \<comment> \<open>\<open>if X2 is None: X2 = X\<close>\<close>
  "X2_or X X2 = (case X2 of None \<Rightarrow> X | Some Y \<Rightarrow> Y)"

definition bcast_lengthscale :: "vec \<Rightarrow> nat \<Rightarrow> vec option" where
  \<comment> \<open>the lengthscale as the last axis of length \<open>d\<close> sees it\<close>
  "bcast_lengthscale ls d =
     (if length ls = d then Some ls
      else if length ls = 1 then Some (replicate d (hd ls))
      else None)"

definition pdiff :: "array2 \<Rightarrow> array2 \<Rightarrow> fl list list list" where
  \<comment> \<open>\<open>X[:,None,:]-X2[None,:,:]\<close>\<close>
  "pdiff X Y = map (\<lambda>x. map (\<lambda>y. map2 fsub x y) (rows Y)) (rows X)"

definition dist_of :: "vec \<Rightarrow> array2 \<Rightarrow> array2 \<Rightarrow> fl list list" where
  \<comment> \<open>\<open>np.sqrt(np.sum(np.square((X[:,None,:]-X2[None,:,:])/self.lengthscale),-1))\<close>\<close>
  "dist_of ls X Y =
     map (map (\<lambda>r. fsqrt (fsum (map fsquare (map2 fdiv r ls))))) (pdiff X Y)"

definition add2 :: "fl list list \<Rightarrow> fl list list \<Rightarrow> fl list list" where
  \<comment> \<open>the sum of two arrays of one shape, entry by entry\<close>
  "add2 A B = map2 (map2 fadd) A B"

definition mul2 :: "fl list list \<Rightarrow> fl list list \<Rightarrow> fl list list" where
  \<comment> \<open>the product of two arrays of one shape, entry by entry\<close>
  "mul2 A B = map2 (map2 fmul) A B"

definition mul3r :: "fl list list list \<Rightarrow> fl list list \<Rightarrow> fl list list list" where
  \<comment> \<open>\<open>T * A[:,:,None]\<close>\<close>
  "mul3r T A = map2 (map2 (\<lambda>r a. map (\<lambda>t. fmul t a) r)) T A"

definition mul3l :: "fl list list \<Rightarrow> fl list list list \<Rightarrow> fl list list list" where
  \<comment> \<open>\<open>A[:,:,None] * T\<close>\<close>
  "mul3l A T = map2 (map2 (\<lambda>a r. map (fmul a) r)) A T"

definition transp :: "nat \<Rightarrow> 'a list list \<Rightarrow> 'a list list" where
  \<comment> \<open>the first two axes exchanged; \<open>m\<close> is the length of the second axis\<close>
  "transp m A = map (\<lambda>j. map (\<lambda>r. r ! j) A) [0..<m]"

definition sum_axis0_vec :: "nat \<Rightarrow> vec list \<Rightarrow> vec" where
  \<comment> \<open>\<open>.sum(0)\<close> of an array of shape \<open>(n, d)\<close>\<close>
  "sum_axis0_vec d vs = foldr (map2 fadd) vs (replicate d (Fin 0))"

definition sum_axis0_mat :: "nat \<Rightarrow> nat \<Rightarrow> fl list list list \<Rightarrow> fl list list" where
  \<comment> \<open>\<open>.sum(0)\<close> of an array of shape \<open>(n, m, d)\<close>\<close>
  "sum_axis0_mat m d Ms = foldr add2 Ms (replicate m (replicate d (Fin 0)))"

definition K :: "exponential \<Rightarrow> array2 \<Rightarrow> array2 option \<Rightarrow> array2 \<Rightarrow> error + array2" where
  "K k X X2 target =
     (let Y = X2_or X X2 in
      if ncols Y \<noteq> ncols X then Inl ValueError
      else case bcast_lengthscale (lengthscale k) (ncols X) of
        None \<Rightarrow> Inl ValueError
      | Some ls \<Rightarrow>
          let dists = dist_of ls X Y;
              kv = map (map (\<lambda>r. fmul (variance k) (fexp (fneg r)))) dists
          in if nrows target = nrows X \<and> ncols target = nrows Y
             then Inr (target\<lparr>rows := add2 kv (rows target)\<rparr>)
             else Inl ValueError)"

definition Kdiag :: "exponential \<Rightarrow> array2 \<Rightarrow> vec \<Rightarrow> vec" where
  \<comment> \<open>\<open>np.add(target,self.variance,target)\<close>\<close>
  "Kdiag k X target = map (\<lambda>t. fadd t (variance k)) target"

definition invdist_of :: "fl list list \<Rightarrow> fl list list" where
  \<comment> \<open>\<open>1./np.where(dist!=0.,dist,np.inf)\<close>\<close>
  "invdist_of dists =
     map (map (\<lambda>r. fdiv (Fin 1) (if fne r (Fin 0) then r else PInf))) dists"

definition dist2M_of :: "vec \<Rightarrow> array2 \<Rightarrow> array2 \<Rightarrow> fl list list list" where
  \<comment> \<open>\<open>np.square(X[:,None,:]-X2[None,:,:])/self.lengthscale**3\<close>\<close>
  "dist2M_of ls X Y =
     map (map (\<lambda>r. map2 fdiv (map fsquare r) (map (\<lambda>l. fpow l 3) ls))) (pdiff X Y)"

definition dvar_of :: "fl list list \<Rightarrow> fl list list" where
  \<comment> \<open>\<open>np.exp(-dist)\<close>\<close>
  "dvar_of dists = map (map (\<lambda>r. fexp (fneg r))) dists"

definition dl_partial_ARD :: "fl \<Rightarrow> vec \<Rightarrow> fl list list \<Rightarrow> array2 \<Rightarrow> array2 \<Rightarrow> fl list list list" where
  \<comment> \<open>\<open>dl*partial[:,:,None]\<close> of the ARD branch, with
      \<open>dl = self.variance*dvar[:,:,None]*dist2M*invdist[:,:,None]\<close>:
      entry \<open>[i,j,d]\<close> is what the pair \<open>(i,j)\<close> adds to the gradient of lengthscale \<open>d\<close>\<close>
  "dl_partial_ARD v ls partial X Y =
     (let dists = dist_of ls X Y;
          dl = mul3r (mul3l (map (map (fmul v)) (dvar_of dists)) (dist2M_of ls X Y))
                 (invdist_of dists)
      in mul3r dl partial)"

definition dl_partial :: "fl \<Rightarrow> vec \<Rightarrow> fl list list \<Rightarrow> array2 \<Rightarrow> array2 \<Rightarrow> fl list list" where
  \<comment> \<open>\<open>dl*partial\<close> of the branch without ARD, with
      \<open>dl = self.variance*dvar*dist2M.sum(-1)*invdist\<close>:
      entry \<open>[i,j]\<close> is what the pair \<open>(i,j)\<close> adds to the gradient of the lengthscale\<close>
  "dl_partial v ls partial X Y =
     (let dists = dist_of ls X Y;
          dl = mul2 (mul2 (map (map (fmul v)) (dvar_of dists))
                       (map (map fsum) (dist2M_of ls X Y)))
                 (invdist_of dists)
      in mul2 dl partial)"

definition dK_dtheta ::
  "exponential \<Rightarrow> array2 \<Rightarrow> array2 \<Rightarrow> array2 option \<Rightarrow> vec \<Rightarrow> error + vec" where
  "dK_dtheta k partial X X2 target =
     (let Y = X2_or X X2 in
      if ncols Y \<noteq> ncols X then Inl ValueError
      else case bcast_lengthscale (lengthscale k) (ncols X) of
        None \<Rightarrow> Inl ValueError
      | Some ls \<Rightarrow>
          if \<not> (nrows partial = nrows X \<and> ncols partial = nrows Y) then Inl ValueError
          else
            let dvar = dvar_of (dist_of ls X Y) in
            case target of
              [] \<Rightarrow> Inl IndexError
            | t0 # ts \<Rightarrow>
                let t0' = fadd t0 (fsum (concat (mul2 dvar (rows partial)))) in
                if ARD k then
                  if length ts \<noteq> ncols X then Inl ValueError
                  else
                    let s = sum_axis0_vec (ncols X)
                              (sum_axis0_mat (nrows Y) (ncols X)
                                 (dl_partial_ARD (variance k) ls (rows partial) X Y))
                    in Inr (t0' # map2 fadd ts s)
                else
                  case ts of
                    [] \<Rightarrow> Inl IndexError
                  | t1 # ts' \<Rightarrow>
                      Inr (t0' #
                           fadd t1 (fsum (concat
                             (dl_partial (variance k) ls (rows partial) X Y))) # ts'))"

definition dKdiag_dtheta :: "exponential \<Rightarrow> array2 \<Rightarrow> array2 \<Rightarrow> vec \<Rightarrow> error + vec" where
  \<comment> \<open>\<open>target[0] += np.sum(partial)\<close>\<close>
  "dKdiag_dtheta k partial X target =
     (case target of
        [] \<Rightarrow> Inl IndexError
      | t0 # ts \<Rightarrow> Inr (fadd t0 (fsum (concat (rows partial))) # ts))"

definition dK_dX_partial :: "fl \<Rightarrow> vec \<Rightarrow> array2 \<Rightarrow> array2 \<Rightarrow> array2 \<Rightarrow> fl list list list" where
  \<comment> \<open>\<open>dK_dX*partial.T[:,:,None]\<close>, of shape \<open>(M, N, D)\<close>: entry \<open>[j,i,d]\<close> is what the
      pair \<open>(i,j)\<close> adds to the gradient of \<open>X[i,d]\<close>\<close>
  "dK_dX_partial v ls partial X Y =
     (let dists = dist_of ls X Y;
          ddist_dX =
            map2 (map2 (\<lambda>r dd.
                map (\<lambda>t. fdiv t (if fne dd (Fin 0) then dd else PInf))
                  (map2 fdiv r (map (\<lambda>l. fpow l 2) ls))))
              (pdiff X Y) dists;
          dK_dX = map (map (map fneg))
                    (transp (nrows Y)
                       (mul3l (map (map (\<lambda>r. fmul v (fexp (fneg r)))) dists) ddist_dX))
      in mul3r dK_dX (transp (ncols partial) (rows partial)))"

definition dK_dX ::
  "exponential \<Rightarrow> array2 \<Rightarrow> array2 \<Rightarrow> array2 option \<Rightarrow> array2 \<Rightarrow> error + array2" where
  "dK_dX k partial X X2 target =
     (let Y = X2_or X X2 in
      if ncols Y \<noteq> ncols X then Inl ValueError
      else case bcast_lengthscale (lengthscale k) (ncols X) of
        None \<Rightarrow> Inl ValueError
      | Some ls \<Rightarrow>
          if \<not> (nrows partial = nrows X \<and> ncols partial = nrows Y) then Inl ValueError
          else if \<not> (nrows target = nrows X \<and> ncols target = ncols X) then Inl ValueError
          else
            Inr (target\<lparr>rows :=
                   add2 (rows target)
                     (sum_axis0_mat (nrows X) (ncols X)
                        (dK_dX_partial (variance k) ls partial X Y))\<rparr>))"

definition dKdiag_dX :: "exponential \<Rightarrow> array2 \<Rightarrow> array2 \<Rightarrow> array2" where
  \<comment> \<open>\<open>pass\<close>: the target the caller holds after the call\<close>
  "dKdiag_dX k X target = target"

section \<open>The Gram matrix\<close>

text \<open>
  \<open>integrate.quad\<close> is scipy's: the value it returns (the entry \<open>[0]\<close> of its result)
  is taken as a parameter \<open>quad\<close>, a function of the integrand and the two bounds. The
  basis functions \<open>F\<close> and their derivatives \<open>F1\<close> are lists of functions on floats.
\<close>

definition L_op :: "fl \<Rightarrow> (fl \<Rightarrow> fl) list \<Rightarrow> (fl \<Rightarrow> fl) list \<Rightarrow> fl \<Rightarrow> nat \<Rightarrow> fl" where
  \<comment> \<open>the local function \<open>L(x,i)\<close>: \<open>1./self.lengthscale*F[i](x) + F1[i](x)\<close>\<close>
  "L_op l F F1 x i = fadd (fmul (fdiv (Fin 1) l) ((F ! i) x)) ((F1 ! i) x)"

definition set2 :: "fl list list \<Rightarrow> nat \<Rightarrow> nat \<Rightarrow> fl \<Rightarrow> fl list list" where
  \<comment> \<open>\<open>G[i,j] = v\<close>\<close>
  "set2 G i j v = G[i := (G ! i)[j := v]]"

definition Gram_inner ::
  "((fl \<Rightarrow> fl) \<Rightarrow> fl \<Rightarrow> fl \<Rightarrow> fl) \<Rightarrow> (fl \<Rightarrow> nat \<Rightarrow> fl) \<Rightarrow> fl \<Rightarrow> fl \<Rightarrow> nat \<Rightarrow> nat
     \<Rightarrow> fl list list \<Rightarrow> fl list list" where
  \<comment> \<open>\<open>for j in range(i,n): G[i,j] = G[j,i] = integrate.quad(...)[0]\<close>\<close>
  "Gram_inner quad Lf lower upper n i G =
     fold (\<lambda>j G'. let v = quad (\<lambda>x. fmul (Lf x i) (Lf x j)) lower upper
                  in set2 (set2 G' i j v) j i v)
       [i..<n] G"

definition Gram_loops ::
  "((fl \<Rightarrow> fl) \<Rightarrow> fl \<Rightarrow> fl \<Rightarrow> fl) \<Rightarrow> (fl \<Rightarrow> nat \<Rightarrow> fl) \<Rightarrow> fl \<Rightarrow> fl \<Rightarrow> nat
     \<Rightarrow> fl list list" where
  \<comment> \<open>\<open>G = np.zeros((n,n))\<close> and the loop \<open>for i in range(n)\<close>\<close>
  "Gram_loops quad Lf lower upper n =
     fold (Gram_inner quad Lf lower upper n) [0..<n] (replicate n (replicate n (Fin 0)))"

definition Gram_matrix ::
  "((fl \<Rightarrow> fl) \<Rightarrow> fl \<Rightarrow> fl \<Rightarrow> fl) \<Rightarrow> exponential \<Rightarrow> (fl \<Rightarrow> fl) list \<Rightarrow> (fl \<Rightarrow> fl) list
     \<Rightarrow> fl \<Rightarrow> fl \<Rightarrow> error + array2" where
  \<comment> \<open>The lengthscale is an array, so that \<open>L\<close> answers an array of as many entries;
      \<open>quad\<close> takes an integrand of one value, which is the case of every kernel with
      \<open>D = 1\<close> that the constructor built, and fails on another. \<open>F1[i]\<close> raises IndexError
      in the integrand when \<open>F1\<close> is shorter than \<open>F\<close>.\<close>
  "Gram_matrix quad k F F1 lower upper =
     (if D k \<noteq> 1 then Inl AssertionError
      else case lengthscale k of
        [l] \<Rightarrow>
          if length F1 < length F then Inl IndexError
          else
            let n = length F;
                G = Gram_loops quad (L_op l F F1) lower upper n;
                Flower = map (\<lambda>f. f lower) F
            in Inr \<lparr>ncols = n,
                    rows = add2 (map (map (fmul (fdiv (fdiv l (Fin 2)) (variance k)))) G)
                             (map (map (fmul (fdiv (Fin 1) (variance k))))
                                (map (\<lambda>a. map (\<lambda>b. fmul a b) Flower) Flower))\<rparr>
      | _ \<Rightarrow> Inl QuadError)"

section \<open>The latent-variable model\<close>

text \<open>
  \<open>GPLVM\<close> inherits from \<open>GP_regression\<close> and holds a composite kernel \<open>self.kern\<close>;
  neither class is among the sources. What the model calls of them is taken as given:
  the four methods of the kernel as the fields of \<open>kern_methods\<close>, and \<open>self.dL_dK()\<close>
  as a parameter \<open>dL_dK\<close> of the gradient. \<open>N\<close> and \<open>Q\<close> are the attributes the base
  class sets.
\<close>

record kern_methods =
  get_param_names_transformed :: "string list"
  get_params_transformed :: vec
  kern_dK_dtheta :: "array2 \<Rightarrow> array2 \<Rightarrow> vec"
  kern_dK_dX :: "array2 \<Rightarrow> array2 \<Rightarrow> array2"

record GPLVM =
  X :: array2
  N :: nat
  Q :: nat
  kern :: kern_methods

definition digit :: "nat \<Rightarrow> char" where
  "digit n = ''0123456789'' ! (n mod 10)"

fun str_of_nat :: "nat \<Rightarrow> string" where
  \<comment> \<open>\<open>'%i' % n\<close> for \<open>n \<ge> 0\<close>\<close>
  "str_of_nat n = (if n < 10 then [digit n] else str_of_nat (n div 10) @ [digit n])"

declare str_of_nat.simps [simp del]

definition X_name :: "nat \<Rightarrow> nat \<Rightarrow> string" where
  \<comment> \<open>\<open>'X_%i_%i'%(n,q)\<close>\<close>
  "X_name n q = ''X_'' @ str_of_nat n @ ''_'' @ str_of_nat q"

definition X_name_indices :: "GPLVM \<Rightarrow> (nat \<times> nat) list" where
  \<comment> \<open>the pairs \<open>(n,q)\<close> in the order the two comprehensions of \<open>_get_param_names\<close>
      produce them\<close>
  "X_name_indices m = concat (map (\<lambda>q. map (\<lambda>n. (n, q)) [0..<N m]) [0..<Q m])"

definition GPLVM_get_param_names :: "GPLVM \<Rightarrow> string list" where
  "GPLVM_get_param_names m =
     concat (map (\<lambda>q. map (\<lambda>n. X_name n q) [0..<N m]) [0..<Q m])
       @ get_param_names_transformed (kern m)"

definition flatten :: "array2 \<Rightarrow> vec" where
  \<comment> \<open>\<open>.flatten()\<close>: row-major\<close>
  "flatten A = concat (rows A)"

definition GPLVM_get_params :: "GPLVM \<Rightarrow> vec" where
  "GPLVM_get_params m = flatten (X m) @ get_params_transformed (kern m)"

definition scale2 :: "fl \<Rightarrow> array2 \<Rightarrow> array2" where
  \<comment> \<open>a scalar times an array\<close>
  "scale2 c A = A\<lparr>rows := map (map (fmul c)) (rows A)\<rparr>"

definition GPLVM_log_likelihood_gradients :: "(GPLVM \<Rightarrow> array2) \<Rightarrow> GPLVM \<Rightarrow> vec" where
  "GPLVM_log_likelihood_gradients dL_dK m =
     (let g = dL_dK m;
          dL_dtheta = kern_dK_dtheta (kern m) g (X m);
          dL_dX = scale2 (Fin 2) (kern_dK_dX (kern m) g (X m))
      in flatten dL_dX @ dL_dtheta)"

section \<open>Facts about the float operations\<close>

lemma fmul_commute: "fmul x y = fmul y x"
  by (cases x; cases y) (simp_all add: mult.commute)

lemma fadd_commute: "fadd x y = fadd y x"
  by (cases x; cases y) (simp_all add: add.commute)

lemma fsub_swap: "fsub y x = fneg (fsub x y)"
  by (cases x; cases y) (simp_all add: fsub_def)

lemma fdiv_fneg: "fdiv (fneg x) l = fneg (fdiv x l)"
  by (cases x; cases l) simp_all

lemma fsquare_fneg: "fsquare (fneg x) = fsquare x"
  by (cases x) (simp_all add: fsquare_def)

lemma fmul_one: "fmul x (Fin 1) = x"
  by (cases x) simp_all

lemma fadd_zero: "fadd x (Fin 0) = x" "fadd (Fin 0) x = x"
  by (cases x; simp)+

section \<open>The distance matrix and the entries of \<open>K\<close>\<close>

lemma sq_term_swap:
  "map fsquare (map2 fdiv (map2 fsub y x) ls) = map fsquare (map2 fdiv (map2 fsub x y) ls)"
proof (induction x arbitrary: y ls)
  case Nil
  then show ?case by simp
next
  case (Cons a x)
  show ?case
  proof (cases y)
    case Nil
    then show ?thesis by simp
  next
    case y: (Cons b y')
    show ?thesis
    proof (cases ls)
      case Nil
      then show ?thesis by simp
    next
      case (Cons l ls')
      have "fsquare (fdiv (fsub b a) l) = fsquare (fdiv (fsub a b) l)"
        by (simp add: fsub_swap [of a b] fdiv_fneg fsquare_fneg)
      with Cons.IH [of y' ls'] y Cons show ?thesis by simp
    qed
  qed
qed

lemma length_dist_of: "length (dist_of ls A B) = nrows A"
  by (simp add: dist_of_def pdiff_def nrows_def)

lemma length_dist_of_row: "i < nrows A \<Longrightarrow> length (dist_of ls A B ! i) = nrows B"
  by (simp add: dist_of_def pdiff_def nrows_def)

lemma dist_of_nth:
  "i < nrows A \<Longrightarrow> j < nrows B \<Longrightarrow>
     dist_of ls A B ! i ! j =
       fsqrt (fsum (map fsquare (map2 fdiv (map2 fsub (rows A ! i) (rows B ! j)) ls)))"
  by (simp add: dist_of_def pdiff_def nrows_def)

lemma dist_of_sym:
  assumes "i < nrows A" "j < nrows A"
  shows "dist_of ls A A ! i ! j = dist_of ls A A ! j ! i"
  by (simp only: dist_of_nth [OF assms] dist_of_nth [OF assms(2,1)]
      sq_term_swap [of "rows A ! j" "rows A ! i" ls])

lemma add2_nth:
  "i < length P \<Longrightarrow> i < length R \<Longrightarrow> j < length (P ! i) \<Longrightarrow> j < length (R ! i) \<Longrightarrow>
     add2 P R ! i ! j = fadd (P ! i ! j) (R ! i ! j)"
  by (simp add: add2_def)

lemma mul2_nth:
  "i < length P \<Longrightarrow> i < length R \<Longrightarrow> j < length (P ! i) \<Longrightarrow> j < length (R ! i) \<Longrightarrow>
     mul2 P R ! i ! j = fmul (P ! i ! j) (R ! i ! j)"
  by (simp add: mul2_def)

lemma wf_array2_row: "wf_array2 A \<Longrightarrow> i < nrows A \<Longrightarrow> length (rows A ! i) = ncols A"
  by (simp add: wf_array2_def nrows_def list_all_length)

lemma K_entry:
  assumes "K k A None T = Inr R" "wf_array2 T" "i < nrows A" "j < nrows A"
  shows "\<exists>ls. bcast_lengthscale (lengthscale k) (ncols A) = Some ls \<and>
     rows R ! i ! j =
       fadd (fmul (variance k) (fexp (fneg (dist_of ls A A ! i ! j)))) (rows T ! i ! j)"
proof -
  from assms(1) obtain ls where ls: "bcast_lengthscale (lengthscale k) (ncols A) = Some ls"
    and sh: "nrows T = nrows A" "ncols T = nrows A"
    and R: "rows R = add2 (map (map (\<lambda>r. fmul (variance k) (fexp (fneg r)))) (dist_of ls A A)) (rows T)"
    by (auto simp: K_def X2_or_def Let_def split: option.splits if_splits)
  have "length (rows T ! i) = nrows A"
    using wf_array2_row [OF assms(2)] assms(3) sh by simp
  then show ?thesis
    using ls R assms(3,4) sh
    by (simp add: add2_nth length_dist_of length_dist_of_row nrows_def [of T])
qed

section \<open>Distances of real-valued rows\<close>

lemma sqrt9: "sqrt 9 = 3"
  using real_sqrt_abs2 [of 3] by simp

lemma fsum_Nil: "fsum [] = Fin 0"
  by (simp add: fsum_def)

lemma fsum_Cons: "fsum (c # cs) = fadd c (fsum cs)"
  by (simp add: fsum_def)

lemma sq_term_fin: "l' \<noteq> 0 \<Longrightarrow>
  fsquare (fdiv (fsub (Fin a') (Fin b')) (Fin l')) = Fin ((a' - b') / l' * ((a' - b') / l'))"
  by (simp add: fsquare_def fsub_def)

lemma pair_sum_fin:
  assumes "list_all is_fin x" "list_all is_fin y" "list_all nonzero_fin ls"
  shows "\<exists>s. fsum (map fsquare (map2 fdiv (map2 fsub x y) ls)) = Fin s \<and> 0 \<le> s"
  using assms
proof (induction x arbitrary: y ls)
  case Nil
  then show ?case by (simp add: fsum_Nil)
next
  case (Cons a x)
  show ?case
  proof (cases y)
    case Nil
    then show ?thesis by (simp add: fsum_Nil)
  next
    case y: (Cons b y')
    show ?thesis
    proof (cases ls)
      case Nil
      then show ?thesis by (simp add: fsum_Nil)
    next
      case (Cons l ls')
      from Cons.prems y Cons obtain a' b' l' where
        e: "a = Fin a'" "b = Fin b'" "l = Fin l'" "l' \<noteq> 0"
        by (cases a; cases b; cases l) auto
      from Cons.IH [of y' ls'] Cons.prems y Cons obtain s where
        s: "fsum (map fsquare (map2 fdiv (map2 fsub x y') ls')) = Fin s" "0 \<le> s"
        by auto
      have "0 \<le> (a' - b') / l' * ((a' - b') / l') + s" using s(2) by simp
      with s(1) e y Cons show ?thesis
        by (simp add: fsum_Cons sq_term_fin)
    qed
  qed
qed

lemma pair_dist_fin:
  assumes "list_all is_fin x" "list_all is_fin y" "list_all nonzero_fin ls"
  shows "\<exists>r. fsqrt (fsum (map fsquare (map2 fdiv (map2 fsub x y) ls))) = Fin r \<and> 0 \<le> r"
  using pair_sum_fin [OF assms] by auto

lemma fsub_self: "is_fin a \<Longrightarrow> fsub a a = Fin 0"
  by (cases a) (simp_all add: fsub_def)

lemma fdiv_zero: "nonzero_fin l \<Longrightarrow> fdiv (Fin 0) l = Fin 0"
  by (cases l) simp_all

lemma zeros_sub: "list_all is_fin x \<Longrightarrow> list_all (\<lambda>z. z = Fin 0) (map2 fsub x x)"
  by (simp add: list_all_length fsub_self)

lemma zeros_div:
  "list_all (\<lambda>z. z = Fin 0) zs \<Longrightarrow> list_all nonzero_fin ls \<Longrightarrow>
     list_all (\<lambda>z. z = Fin 0) (map2 fdiv zs ls)"
  by (simp add: list_all_length fdiv_zero)

lemma zeros_sq: "list_all (\<lambda>z. z = Fin 0) zs \<Longrightarrow> list_all (\<lambda>z. z = Fin 0) (map fsquare zs)"
  by (simp add: list_all_length fsquare_def)

lemma fsum_zeros: "list_all (\<lambda>z. z = Fin 0) zs \<Longrightarrow> fsum zs = Fin 0"
  by (induction zs) (simp_all add: fsum_Nil fsum_Cons)

lemma pair_dist_self:
  assumes "list_all is_fin x" "list_all nonzero_fin ls"
  shows "fsqrt (fsum (map fsquare (map2 fdiv (map2 fsub x x) ls))) = Fin 0"
  using fsum_zeros [OF zeros_sq [OF zeros_div [OF zeros_sub [OF assms(1)] assms(2)]]]
  by simp

lemma bcast_lengthscale_Some:
  assumes "bcast_lengthscale ls d = Some ls'"
  shows "length ls' = d" "list_all nonzero_fin ls \<Longrightarrow> list_all nonzero_fin ls'"
  using assms
  by (auto simp: bcast_lengthscale_def list_all_length length_Suc_conv split: if_splits)

lemma bcast_lengthscale_ok:
  "length ls = 1 \<or> length ls = d \<Longrightarrow> \<exists>ls'. bcast_lengthscale ls d = Some ls'"
  by (auto simp: bcast_lengthscale_def)

lemma real_array_row: "real_array A \<Longrightarrow> i < nrows A \<Longrightarrow> list_all is_fin (rows A ! i)"
  by (simp add: real_array_def nrows_def list_all_length)

lemma K_succeeds:
  assumes "length (lengthscale k) = 1 \<or> length (lengthscale k) = ncols A"
    "nrows T = nrows A" "ncols T = nrows A"
  shows "\<exists>R. K k A None T = Inr R \<and> nrows R = nrows A \<and> ncols R = nrows A
           \<and> (wf_array2 T \<longrightarrow> wf_array2 R)"
proof -
  from bcast_lengthscale_ok [OF assms(1)] obtain ls where
    ls: "bcast_lengthscale (lengthscale k) (ncols A) = Some ls" by auto
  have "list_all (\<lambda>r. length r = n) xs \<Longrightarrow> length ys = length xs \<Longrightarrow>
      list_all (\<lambda>r. length r = n) ys' \<Longrightarrow> length ys' = length xs \<Longrightarrow> 
      list_all (\<lambda>r. length r = n) (add2 ys' xs)" for n xs ys ys'
    by (simp add: list_all_length add2_def)
  have "wf_array2 T \<Longrightarrow> wf_array2 (T\<lparr>rows := add2 (map (map (\<lambda>r. fmul (variance k) (fexp (fneg r)))) (dist_of ls A A)) (rows T)\<rparr>)"
    using assms(2,3)
    by (simp add: wf_array2_def list_all_length add2_def length_dist_of nrows_def [of T] length_dist_of_row)
  with ls assms(2,3) show ?thesis
    by (simp add: K_def X2_or_def Let_def nrows_def add2_def length_dist_of [unfolded nrows_def])
qed

lemma feq_Fin: "feq (Fin a) (Fin a)"
  by (simp add: feq_def fne_def)

lemma zeros2_simps: "nrows (zeros2 n m) = n" "ncols (zeros2 n m) = m" "wf_array2 (zeros2 n m)"
  "i < n \<Longrightarrow> j < m \<Longrightarrow> rows (zeros2 n m) ! i ! j = Fin 0"
  by (simp_all add: zeros2_def nrows_def wf_array2_def list_all_length)

section \<open>Entries of the derivative arrays\<close>

lemma zeros_nth: "list_all (\<lambda>z. z = Fin 0) zs \<Longrightarrow> d < length zs \<Longrightarrow> zs ! d = Fin 0"
  by (simp add: list_all_length)

lemma dl_partial_nth:
  assumes "i < nrows A" "j < nrows B" "i < length P" "j < length (P ! i)"
  shows "dl_partial v ls P A B ! i ! j =
    fmul (fmul (fmul (fmul v (fexp (fneg (dist_of ls A B ! i ! j))))
                  (fsum (map2 fdiv (map fsquare (map2 fsub (rows A ! i) (rows B ! j)))
                           (map (\<lambda>l. fpow l 3) ls))))
            (fdiv (Fin 1) (if fne (dist_of ls A B ! i ! j) (Fin 0)
                           then dist_of ls A B ! i ! j else PInf)))
      (P ! i ! j)"
  using assms
  by (simp add: dl_partial_def Let_def mul2_def dvar_of_def invdist_of_def dist2M_of_def
      pdiff_def length_dist_of length_dist_of_row nrows_def [of A] nrows_def [of B])

lemma dl_partial_ARD_nth:
  assumes "i < nrows A" "j < nrows B" "i < length P" "j < length (P ! i)"
    "d < length (rows A ! i)" "d < length (rows B ! j)" "d < length ls"
  shows "dl_partial_ARD v ls P A B ! i ! j ! d =
    fmul (fmul (fmul (fmul v (fexp (fneg (dist_of ls A B ! i ! j))))
                  (map2 fdiv (map fsquare (map2 fsub (rows A ! i) (rows B ! j)))
                           (map (\<lambda>l. fpow l 3) ls) ! d))
            (fdiv (Fin 1) (if fne (dist_of ls A B ! i ! j) (Fin 0)
                           then dist_of ls A B ! i ! j else PInf)))
      (P ! i ! j)"
  using assms
  by (simp add: dl_partial_ARD_def Let_def mul3r_def mul3l_def dvar_of_def invdist_of_def
      dist2M_of_def pdiff_def length_dist_of length_dist_of_row nrows_def [of A]
      nrows_def [of B])

lemma dK_dX_partial_nth:
  assumes "i < nrows A" "j < nrows B" "i < nrows P" "j < ncols P"
    "d < length (rows A ! i)" "d < length (rows B ! j)" "d < length ls"
  shows "dK_dX_partial v ls P A B ! j ! i ! d =
    fmul (fneg (fmul (fmul v (fexp (fneg (dist_of ls A B ! i ! j))))
                  (fdiv (map2 fdiv (map2 fsub (rows A ! i) (rows B ! j))
                           (map (\<lambda>l. fpow l 2) ls) ! d)
                     (if fne (dist_of ls A B ! i ! j) (Fin 0)
                      then dist_of ls A B ! i ! j else PInf))))
      (rows P ! i ! j)"
  using assms
  by (simp add: dK_dX_partial_def Let_def mul3r_def mul3l_def transp_def
      pdiff_def length_dist_of length_dist_of_row nrows_def [of A]
      nrows_def [of B] nrows_def [of P])


section \<open>Zero distances and the range of a power\<close>

lemma f64_range_cases:
  assumes "\<not> abs r \<le> 1 / 2 ^ 1075"
  shows "f64_range r = PInf \<or> f64_range r = NInf \<or> (f64_range r = Fin r \<and> r \<noteq> 0)"
proof -
  have "(0::real) \<le> 1 / 2 ^ 1075" by simp
  with assms have "r \<noteq> 0" by auto
  with assms show ?thesis unfolding f64_range_def by presburger
qed

lemma fdiv_zero_pow: "pow_in_range n l \<Longrightarrow> fdiv (Fin 0) (fpow l n) = Fin 0"
proof (cases l)
  case (Fin a)
  assume "pow_in_range n l"
  with Fin have "\<not> abs (a ^ n) \<le> 1 / 2 ^ 1075" by simp
  from f64_range_cases [OF this] Fin show ?thesis by auto
qed simp_all

lemma bcast_lengthscale_all:
  assumes "bcast_lengthscale ls d = Some ls'" "list_all P ls"
  shows "list_all P ls'"
  using assms
  by (auto simp: bcast_lengthscale_def list_all_length length_Suc_conv split: if_splits)

lemma zeros_div_pow:
  "list_all (\<lambda>z. z = Fin 0) zs \<Longrightarrow> list_all (pow_in_range n) ls \<Longrightarrow>
     list_all (\<lambda>z. z = Fin 0) (map2 fdiv zs (map (\<lambda>l. fpow l n) ls))"
  by (simp add: list_all_length fdiv_zero_pow)

lemma dK_dX_value:
  assumes "bcast_lengthscale (lengthscale k) (ncols A) = Some ls"
    "nrows P = nrows A" "ncols P = nrows A" "nrows T = nrows A" "ncols T = ncols A"
  shows "dK_dX k P A None T =
     Inr (T\<lparr>rows := add2 (rows T)
            (sum_axis0_mat (nrows A) (ncols A) (dK_dX_partial (variance k) ls P A A))\<rparr>)"
  using assms by (simp add: dK_dX_def X2_or_def Let_def)

lemma dK_dtheta_value:
  assumes "bcast_lengthscale (lengthscale k) (ncols A) = Some ls"
    "nrows P = nrows A" "ncols P = nrows A" "\<not> ARD k"
  shows "dK_dtheta k P A None (t0 # t1 # ts) =
     Inr (fadd t0 (fsum (concat (mul2 (dvar_of (dist_of ls A A)) (rows P))))
          # fadd t1 (fsum (concat (dl_partial (variance k) ls (rows P) A A))) # ts)"
  using assms by (simp add: dK_dtheta_def X2_or_def Let_def)

lemma dK_dtheta_value_ARD:
  assumes "bcast_lengthscale (lengthscale k) (ncols A) = Some ls"
    "nrows P = nrows A" "ncols P = nrows A" "ARD k" "length ts = ncols A"
  shows "dK_dtheta k P A None (t0 # ts) =
     Inr (fadd t0 (fsum (concat (mul2 (dvar_of (dist_of ls A A)) (rows P))))
          # map2 fadd ts
              (sum_axis0_vec (ncols A)
                 (sum_axis0_mat (nrows A) (ncols A)
                    (dl_partial_ARD (variance k) ls (rows P) A A))))"
  using assms by (simp add: dK_dtheta_def X2_or_def Let_def)


lemma pair_contributions_zero:
  assumes "wf_array2 A" "real_array A"
    "wf_array2 P" "real_array P" "nrows P = nrows A" "ncols P = nrows A"
    "is_fin (variance k)" "list_all nonzero_fin (lengthscale k)"
    "bcast_lengthscale (lengthscale k) (ncols A) = Some ls"
    "i < nrows A" "j < nrows A" "rows A ! i = rows A ! j"
  shows "dist_of ls A A ! i ! j = Fin 0"
    "invdist_of (dist_of ls A A) ! i ! j = Fin 0"
    "list_all (pow_in_range 3) (lengthscale k) \<Longrightarrow>
       dl_partial (variance k) ls (rows P) A A ! i ! j = Fin 0"
    "list_all (pow_in_range 3) (lengthscale k) \<Longrightarrow> d < ncols A \<Longrightarrow>
       dl_partial_ARD (variance k) ls (rows P) A A ! i ! j ! d = Fin 0"
    "list_all (pow_in_range 2) (lengthscale k) \<Longrightarrow> d < ncols A \<Longrightarrow>
       dK_dX_partial (variance k) ls P A A ! j ! i ! d = Fin 0"
proof -
  let ?x = "rows A ! i"
  have x: "list_all is_fin ?x" by (rule real_array_row [OF assms(2,10)])
  have lx: "length ?x = ncols A" by (rule wf_array2_row [OF assms(1,10)])
  note ls = bcast_lengthscale_Some [OF assms(9)]
  have nz: "list_all nonzero_fin ls" by (rule ls(2) [OF assms(8)])
  from assms(7) obtain v where v: "variance k = Fin v" by (cases "variance k") auto
  have Pi: "i < length (rows P)" "j < length (rows P ! i)"
    using assms(5,6,10,11) wf_array2_row [OF assms(3), of i] by (simp_all add: nrows_def)
  from real_array_row [OF assms(4), of i] Pi assms(5,10)
  obtain p where p: "rows P ! i ! j = Fin p"
    by (cases "rows P ! i ! j") (auto simp: list_all_length)
  show d0: "dist_of ls A A ! i ! j = Fin 0"
    using pair_dist_self [OF x nz] assms(10,11,12) by (simp add: dist_of_nth)
  show "invdist_of (dist_of ls A A) ! i ! j = Fin 0"
    using d0 assms(10,11)
    by (simp add: invdist_of_def length_dist_of length_dist_of_row fne_def)
  have dd: "d < length ?x" "d < length (rows A ! j)" "d < length ls" if "d < ncols A" for d
    using that lx ls(1) assms(12) by simp_all
  {
    assume "list_all (pow_in_range 3) (lengthscale k)"
    then have p3: "list_all (pow_in_range 3) ls" by (rule bcast_lengthscale_all [OF assms(9)])
    have z3: "list_all (\<lambda>z. z = Fin 0)
        (map2 fdiv (map fsquare (map2 fsub ?x ?x)) (map (\<lambda>l. fpow l 3) ls))"
      by (rule zeros_div_pow [OF zeros_sq [OF zeros_sub [OF x]] p3])
    show "dl_partial (variance k) ls (rows P) A A ! i ! j = Fin 0"
      using dl_partial_nth [OF assms(10,11) Pi, of "variance k" ls] fsum_zeros [OF z3]
        d0 v p assms(12)
      by (simp add: fne_def)
    assume d: "d < ncols A"
    have "map2 fdiv (map fsquare (map2 fsub ?x ?x)) (map (\<lambda>l. fpow l 3) ls) ! d = Fin 0"
      using zeros_nth [OF z3, of d] dd [OF d] by simp
    with dl_partial_ARD_nth [OF assms(10,11) Pi dd [OF d], of "variance k"] d0 v p assms(12)
    show "dl_partial_ARD (variance k) ls (rows P) A A ! i ! j ! d = Fin 0"
      by (simp add: fne_def)
  }
  {
    assume "list_all (pow_in_range 2) (lengthscale k)"
    then have p2: "list_all (pow_in_range 2) ls" by (rule bcast_lengthscale_all [OF assms(9)])
    have z2: "list_all (\<lambda>z. z = Fin 0)
        (map2 fdiv (map2 fsub ?x ?x) (map (\<lambda>l. fpow l 2) ls))"
      by (rule zeros_div_pow [OF zeros_sub [OF x] p2])
    assume d: "d < ncols A"
    have Pj: "i < nrows P" "j < ncols P" using assms(5,6,10,11) by simp_all
    have "map2 fdiv (map2 fsub ?x ?x) (map (\<lambda>l. fpow l 2) ls) ! d = Fin 0"
      using zeros_nth [OF z2, of d] dd [OF d] by simp
    with dK_dX_partial_nth [OF assms(10,11) Pj dd [OF d], of "variance k"] d0 v p assms(12)
    show "dK_dX_partial (variance k) ls P A A ! j ! i ! d = Fin 0"
      by (simp add: fne_def)
  }
qed


lemma replicate_eqI: "length v = d \<Longrightarrow> (\<And>k. k < d \<Longrightarrow> v ! k = c) \<Longrightarrow> v = replicate d c"
  by (simp add: list_eq_iff_nth_eq)

lemma map2_fadd_zeros: "length ts = d \<Longrightarrow> map2 fadd ts (replicate d (Fin 0)) = ts"
  by (simp add: list_eq_iff_nth_eq fadd_zero)

lemma add2_zeros:
  "length R = n \<Longrightarrow> list_all (\<lambda>r. length r = d) R \<Longrightarrow>
     add2 R (replicate n (replicate d (Fin 0))) = R"
  by (simp add: add2_def list_eq_iff_nth_eq list_all_length fadd_zero)

lemma sum_axis0_vec_zeros:
  "sum_axis0_vec d (replicate n (replicate d (Fin 0))) = replicate d (Fin 0)"
  by (induction n) (simp_all add: sum_axis0_vec_def map2_fadd_zeros)

lemma sum_axis0_mat_zeros:
  "sum_axis0_mat m d (replicate n (replicate m (replicate d (Fin 0))))
     = replicate m (replicate d (Fin 0))"
  by (induction n) (simp_all add: sum_axis0_mat_def add2_zeros list_all_length)

lemma fsum_concat_zeros:
  "list_all (list_all (\<lambda>z. z = Fin 0)) M \<Longrightarrow> fsum (concat M) = Fin 0"
  by (rule fsum_zeros) (auto simp: list_all_iff)

lemma dl_partial_shape:
  assumes "length Pr = nrows A" "list_all (\<lambda>r. length r = nrows B) Pr"
  shows "length (dl_partial v ls Pr A B) = nrows A"
    "i < nrows A \<Longrightarrow> length (dl_partial v ls Pr A B ! i) = nrows B"
  using assms
  by (simp_all add: dl_partial_def Let_def mul2_def dvar_of_def invdist_of_def dist2M_of_def
      pdiff_def length_dist_of length_dist_of_row nrows_def [of A] nrows_def [of B]
      list_all_length)

lemma dl_partial_ARD_shape:
  assumes "length Pr = nrows A" "list_all (\<lambda>r. length r = nrows B) Pr"
    "wf_array2 A" "wf_array2 B" "ncols B = ncols A" "length ls = ncols A"
  shows "length (dl_partial_ARD v ls Pr A B) = nrows A"
    "i < nrows A \<Longrightarrow> length (dl_partial_ARD v ls Pr A B ! i) = nrows B"
    "i < nrows A \<Longrightarrow> j < nrows B \<Longrightarrow> length (dl_partial_ARD v ls Pr A B ! i ! j) = ncols A"
  using assms
  by (simp_all add: dl_partial_ARD_def Let_def mul3r_def mul3l_def dvar_of_def invdist_of_def
      dist2M_of_def pdiff_def length_dist_of length_dist_of_row nrows_def [of A]
      nrows_def [of B] list_all_length wf_array2_def)

lemma dK_dX_partial_shape:
  assumes "nrows P = nrows A" "ncols P = nrows B" "wf_array2 P"
    "wf_array2 A" "wf_array2 B" "ncols B = ncols A" "length ls = ncols A"
  shows "length (dK_dX_partial v ls P A B) = nrows B"
    "j < nrows B \<Longrightarrow> length (dK_dX_partial v ls P A B ! j) = nrows A"
    "i < nrows A \<Longrightarrow> j < nrows B \<Longrightarrow> length (dK_dX_partial v ls P A B ! j ! i) = ncols A"
  using assms
  by (simp_all add: dK_dX_partial_def Let_def mul3r_def mul3l_def transp_def
      pdiff_def length_dist_of length_dist_of_row nrows_def [of A]
      nrows_def [of B] nrows_def [of P] list_all_length wf_array2_def)

lemma equal_rows_sums:
  assumes "wf_array2 A" "real_array A"
    "wf_array2 P" "real_array P" "nrows P = nrows A" "ncols P = nrows A"
    "is_fin (variance k)" "list_all nonzero_fin (lengthscale k)"
    "bcast_lengthscale (lengthscale k) (ncols A) = Some ls"
    "\<forall>i<nrows A. rows A ! i = rows A ! 0"
  shows "list_all (pow_in_range 3) (lengthscale k) \<Longrightarrow>
       fsum (concat (dl_partial (variance k) ls (rows P) A A)) = Fin 0"
    "list_all (pow_in_range 3) (lengthscale k) \<Longrightarrow>
       sum_axis0_vec (ncols A)
         (sum_axis0_mat (nrows A) (ncols A) (dl_partial_ARD (variance k) ls (rows P) A A))
       = replicate (ncols A) (Fin 0)"
    "list_all (pow_in_range 2) (lengthscale k) \<Longrightarrow>
       sum_axis0_mat (nrows A) (ncols A) (dK_dX_partial (variance k) ls P A A)
       = replicate (nrows A) (replicate (ncols A) (Fin 0))"
proof -
  have eq: "rows A ! i = rows A ! j" if "i < nrows A" "j < nrows A" for i j
  proof -
    from assms(10) that(1) have "rows A ! i = rows A ! 0" by blast
    moreover from assms(10) that(2) have "rows A ! j = rows A ! 0" by blast
    ultimately show ?thesis by (rule trans [OF _ sym])
  qed
  have Pr: "length (rows P) = nrows A" "list_all (\<lambda>r. length r = nrows A) (rows P)"
    using assms(3,5,6) by (simp_all add: nrows_def wf_array2_def)
  note ls = bcast_lengthscale_Some(1) [OF assms(9)]
  note s1 = dl_partial_shape [OF Pr, where v = "variance k" and ls = ls]
  note s2 = dl_partial_ARD_shape [OF Pr assms(1,1) refl ls, where v = "variance k"]
  note s3 = dK_dX_partial_shape [OF assms(5,6,3,1,1) refl ls, where v = "variance k"]
  let ?Z = "replicate (nrows A) (replicate (ncols A) (Fin 0))"
  let ?M = "dl_partial (variance k) ls (rows P) A A"
  let ?T = "dl_partial_ARD (variance k) ls (rows P) A A"
  let ?U = "dK_dX_partial (variance k) ls P A A"
  {
    assume c: "list_all (pow_in_range 3) (lengthscale k)"
    have e: "?M ! i ! j = Fin 0" if "i < nrows A" "j < nrows A" for i j
      by (rule pair_contributions_zero(3) [OF assms(1-9) that eq [OF that] c])
    have "\<forall>i<length ?M. \<forall>j<length (?M ! i). ?M ! i ! j = Fin 0"
    proof (intro allI impI)
      fix i j assume i: "i < length ?M" and j: "j < length (?M ! i)"
      from i have i': "i < nrows A" by (simp only: s1(1))
      from j have "j < nrows A" by (simp only: s1(2) [OF i'])
      with i' show "?M ! i ! j = Fin 0" by (rule e)
    qed
    then have "list_all (list_all (\<lambda>z. z = Fin 0)) ?M"
      by (simp only: list_all_length)
    then show "fsum (concat ?M) = Fin 0"
      by (rule fsum_concat_zeros)
    have e3: "?T ! i ! j = replicate (ncols A) (Fin 0)"
      if "i < nrows A" "j < nrows A" for i j
      by (rule replicate_eqI [OF s2(3) [OF that]])
        (rule pair_contributions_zero(4) [OF assms(1-9) that eq [OF that] c])
    have e2: "?T ! i = ?Z" if "i < nrows A" for i
      by (rule replicate_eqI [OF s2(2) [OF that]]) (rule e3 [OF that])
    have "?T = replicate (nrows A) ?Z"
      by (rule replicate_eqI [OF s2(1)]) (rule e2)
    then show "sum_axis0_vec (ncols A) (sum_axis0_mat (nrows A) (ncols A) ?T)
       = replicate (ncols A) (Fin 0)"
      by (simp only: sum_axis0_mat_zeros sum_axis0_vec_zeros)
  }
  {
    assume c: "list_all (pow_in_range 2) (lengthscale k)"
    have e3: "?U ! j ! i = replicate (ncols A) (Fin 0)"
      if "i < nrows A" "j < nrows A" for i j
      by (rule replicate_eqI [OF s3(3) [OF that]])
        (rule pair_contributions_zero(5) [OF assms(1-9) that eq [OF that] c])
    have e2: "?U ! j = ?Z" if "j < nrows A" for j
      by (rule replicate_eqI [OF s3(2) [OF that]]) (rule e3 [OF _ that])
    have "?U = replicate (nrows A) ?Z"
      by (rule replicate_eqI [OF s3(1)]) (rule e2)
    then show "sum_axis0_mat (nrows A) (ncols A) ?U = ?Z"
      by (simp only: sum_axis0_mat_zeros)
  }
qed

lemma pow_underflow:
  "fpow (Fin (1 / 10 ^ 110)) 3 = Fin 0" "fpow (Fin (1 / 10 ^ 170)) 2 = Fin 0"
proof -
  have "abs ((1 / 10 ^ 110) ^ 3 :: real) \<le> 1 / 2 ^ 1075"
    by (simp add: power_divide field_simps)
  then show "fpow (Fin (1 / 10 ^ 110)) 3 = Fin 0"
    by (simp only: fpow.simps f64_range_def if_True)
  have "abs ((1 / 10 ^ 170) ^ 2 :: real) \<le> 1 / 2 ^ 1075"
    by (simp add: power_divide field_simps)
  then show "fpow (Fin (1 / 10 ^ 170)) 2 = Fin 0"
    by (simp only: fpow.simps f64_range_def if_True)
qed

section \<open>Flattened arrays and the names of the latent coordinates\<close>

lemma concat_uniform_length:
  "list_all (\<lambda>r. length r = m) xss \<Longrightarrow> length (concat xss) = length xss * m"
  by (induction xss) simp_all

lemma concat_uniform_nth:
  "list_all (\<lambda>r. length r = m) xss \<Longrightarrow> i < length xss \<Longrightarrow> j < m \<Longrightarrow>
     concat xss ! (i * m + j) = xss ! i ! j"
proof (induction xss arbitrary: i)
  case Nil
  then show ?case by simp
next
  case (Cons x xss)
  show ?case
  proof (cases i)
    case 0
    with Cons.prems show ?thesis by (simp add: nth_append)
  next
    case (Suc i')
    with Cons.prems have "concat xss ! (i' * m + j) = xss ! i' ! j"
      by (intro Cons.IH) simp_all
    with Suc Cons.prems show ?thesis by (simp add: nth_append)
  qed
qed

lemma index_bound: "i < (n::nat) \<Longrightarrow> j < m \<Longrightarrow> i * m + j < n * m"
proof -
  assume a: "i < n" "j < m"
  then have "i * m + j < i * m + m" by simp
  also have "\<dots> = Suc i * m" by simp
  also from a(1) have "\<dots> \<le> n * m" by (intro mult_le_mono1) simp
  finally show ?thesis .
qed

lemma flatten_nth:
  "wf_array2 A \<Longrightarrow> i < nrows A \<Longrightarrow> j < ncols A \<Longrightarrow> flatten A ! (i * ncols A + j) = rows A ! i ! j"
  by (simp add: flatten_def wf_array2_def nrows_def concat_uniform_nth)

lemma flatten_length: "wf_array2 A \<Longrightarrow> length (flatten A) = nrows A * ncols A"
  by (simp add: flatten_def wf_array2_def nrows_def concat_uniform_length)

lemma scale2_simps: "ncols (scale2 c A) = ncols A" "nrows (scale2 c A) = nrows A"
  "wf_array2 A \<Longrightarrow> wf_array2 (scale2 c A)"
  "i < nrows A \<Longrightarrow> j < length (rows A ! i) \<Longrightarrow> rows (scale2 c A) ! i ! j = fmul c (rows A ! i ! j)"
  by (simp_all add: scale2_def nrows_def wf_array2_def list_all_length)

lemma X_names_block:
  "list_all (\<lambda>r. length r = n) (map (\<lambda>q. map (\<lambda>i. f i q) [0..<n]) [0..<m])"
  by (simp add: list_all_length)

lemma X_names_nth:
  assumes "i < n" "q < m"
  shows "concat (map (\<lambda>q. map (\<lambda>i. f i q) [0..<n]) [0..<m]) ! (q * n + i) = f i q"
  using concat_uniform_nth [OF X_names_block [of n f m], of q i] assms by simp

lemma X_names_length:
  "length (concat (map (\<lambda>q. map (\<lambda>i. f i q) [0..<n]) [0..<m])) = m * n"
  using concat_uniform_length [OF X_names_block [of n f m]] by simp

lemma X_name_1_0: "X_name (Suc 0) 0 = ''X_1_0''" "X_name 0 (Suc 0) = ''X_0_1''"
  by (simp_all add: X_name_def str_of_nat.simps digit_def)

section \<open>The loops of the Gram matrix\<close>

lemma set2_length: "length (set2 G i j v) = length G"
  by (simp add: set2_def)

lemma set2_row_length: "a < length G \<Longrightarrow> length (set2 G i j v ! a) = length (G ! a)"
  by (cases "a = i") (simp_all add: set2_def)

lemma set2_nth:
  "i < length G \<Longrightarrow> j < length (G ! i) \<Longrightarrow> a < length G \<Longrightarrow>
     set2 G i j v ! a ! b = (if a = i \<and> b = j then v else G ! a ! b)"
  by (cases "a = i"; cases "b = j") (simp_all add: set2_def)

lemma set2_shape:
  assumes "list_all (\<lambda>r. length r = length G) G"
  shows "list_all (\<lambda>r. length r = length (set2 G i j v)) (set2 G i j v)"
  using assms by (simp add: list_all_length set2_length set2_row_length)


lemma Gram_step:
  assumes "list_all (\<lambda>r. length r = length G) G" "i < length G" "j < length G"
  shows "length (set2 (set2 G i j v) j i v) = length G"
    "list_all (\<lambda>r. length r = length (set2 (set2 G i j v) j i v)) (set2 (set2 G i j v) j i v)"
    "a < length G \<Longrightarrow>
      set2 (set2 G i j v) j i v ! a ! b =
        (if (a = i \<and> b = j) \<or> (a = j \<and> b = i) then v else G ! a ! b)"
proof -
  show "length (set2 (set2 G i j v) j i v) = length G" by (simp add: set2_length)
  show "list_all (\<lambda>r. length r = length (set2 (set2 G i j v) j i v)) (set2 (set2 G i j v) j i v)"
    by (intro set2_shape assms(1))
  assume a: "a < length G"
  from assms have r: "j < length (G ! i)" "i < length (G ! j)"
    by (simp_all add: list_all_length)
  have r1: "i < length (set2 G i j v ! j)"
    using r(2) assms(3) by (simp add: set2_row_length)
  have 1: "set2 (set2 G i j v) j i v ! a ! b =
      (if a = j \<and> b = i then v else set2 G i j v ! a ! b)"
  proof (rule set2_nth)
    show "j < length (set2 G i j v)" using assms(3) by (simp only: set2_length)
    show "i < length (set2 G i j v ! j)" by (rule r1)
    show "a < length (set2 G i j v)" using a by (simp only: set2_length)
  qed
  have 2: "set2 G i j v ! a ! b = (if a = i \<and> b = j then v else G ! a ! b)"
    by (rule set2_nth [OF assms(2) r(1) a])
  show "set2 (set2 G i j v) j i v ! a ! b =
        (if (a = i \<and> b = j) \<or> (a = j \<and> b = i) then v else G ! a ! b)"
    unfolding 1 2 by (simp only: split: if_split, blast)
qed

lemma Gram_inner_fold:
  fixes quad :: "(fl \<Rightarrow> fl) \<Rightarrow> fl \<Rightarrow> fl \<Rightarrow> fl" and Lf :: "fl \<Rightarrow> nat \<Rightarrow> fl"
    and lower upper :: fl
  defines "q \<equiv> \<lambda>i j. quad (\<lambda>x. fmul (Lf x i) (Lf x j)) lower upper"
  defines "f \<equiv> \<lambda>i j G'. set2 (set2 G' i j (q i j)) j i (q i j)"
  assumes "list_all (\<lambda>r. length r = length G) G" "i < length G" "\<forall>j \<in> set js. j < length G"
  shows "length (fold (f i) js G) = length G
    \<and> list_all (\<lambda>r. length r = length G) (fold (f i) js G)
    \<and> (\<forall>a<length G. \<forall>b.
         fold (f i) js G ! a ! b =
         (if a = i \<and> b \<in> set js then q i b
          else if b = i \<and> a \<in> set js then q i a
          else G ! a ! b))"
  using assms(3-)
proof (induction js arbitrary: G)
  case Nil
  then show ?case by simp
next
  case (Cons j js)
  let ?G1 = "f i j G"
  have fe: "?G1 = set2 (set2 G i j (q i j)) j i (q i j)" by (simp add: f_def)
  from Cons.prems have j: "j < length G" by simp
  note st = Gram_step [OF Cons.prems(1,2) j, where v = "q i j"]
  have l1: "length ?G1 = length G" unfolding fe by (rule st(1))
  have p: "list_all (\<lambda>r. length r = length ?G1) ?G1" unfolding fe by (rule st(2))
  have p2: "i < length ?G1" "\<forall>j \<in> set js. j < length ?G1"
    unfolding l1 using Cons.prems(2,3) by simp_all
  note IH = Cons.IH [OF p p2, unfolded l1]
  have e: "fold (f i) (j # js) G = fold (f i) js ?G1" by simp
  have "fold (f i) js ?G1 ! a ! b =
         (if a = i \<and> b \<in> set (j # js) then q i b
          else if b = i \<and> a \<in> set (j # js) then q i a
          else G ! a ! b)" if a: "a < length G" for a b
  proof -
    have 1: "fold (f i) js ?G1 ! a ! b =
         (if a = i \<and> b \<in> set js then q i b
          else if b = i \<and> a \<in> set js then q i a
          else ?G1 ! a ! b)"
      by (rule IH [THEN conjunct2, THEN conjunct2, rule_format, OF a])
    have 2: "?G1 ! a ! b = (if (a = i \<and> b = j) \<or> (a = j \<and> b = i) then q i j else G ! a ! b)"
      unfolding fe by (rule st(3) [OF a])
    show ?thesis unfolding 1 2 list.set insert_iff
      by (simp only: split: if_split, blast)
  qed
  then have 3: "\<forall>a<length G. \<forall>b. fold (f i) js ?G1 ! a ! b =
         (if a = i \<and> b \<in> set (j # js) then q i b
          else if b = i \<and> a \<in> set (j # js) then q i a
          else G ! a ! b)" by (intro allI impI)
  show ?case unfolding e
    by (intro conjI IH [THEN conjunct1] IH [THEN conjunct2, THEN conjunct1] 3)
qed


lemma quad_sym:
  "quad (\<lambda>x. fmul (Lf x i) (Lf x j)) lower upper = quad (\<lambda>x. fmul (Lf x j) (Lf x i)) lower upper"
  by (simp add: fmul_commute [of "Lf _ i"])

lemma Gram_inner_result:
  fixes quad :: "(fl \<Rightarrow> fl) \<Rightarrow> fl \<Rightarrow> fl \<Rightarrow> fl" and Lf :: "fl \<Rightarrow> nat \<Rightarrow> fl"
    and lower upper :: fl
  defines "q \<equiv> \<lambda>i j. quad (\<lambda>x. fmul (Lf x i) (Lf x j)) lower upper"
  assumes "list_all (\<lambda>r. length r = length G) G" "i < length G"
  shows "length (Gram_inner quad Lf lower upper (length G) i G) = length G"
    "list_all (\<lambda>r. length r = length G) (Gram_inner quad Lf lower upper (length G) i G)"
    "a < length G \<Longrightarrow> b < length G \<Longrightarrow>
       Gram_inner quad Lf lower upper (length G) i G ! a ! b =
         (if (a = i \<and> i \<le> b) \<or> (b = i \<and> i \<le> a) then q a b else G ! a ! b)"
proof -
  have js: "\<forall>j \<in> set [i..<length G]. j < length G" by simp
  note r = Gram_inner_fold [OF assms(2,3) js, of quad Lf lower upper,
      folded Gram_inner_def [unfolded Let_def]]
  from r show "length (Gram_inner quad Lf lower upper (length G) i G) = length G"
    "list_all (\<lambda>r. length r = length G) (Gram_inner quad Lf lower upper (length G) i G)"
    by (rule conjunct1, rule conjunct2 [THEN conjunct1])
  assume ab: "a < length G" "b < length G"
  have 1: "Gram_inner quad Lf lower upper (length G) i G ! a ! b =
      (if a = i \<and> b \<in> set [i..<length G] then q i b
       else if b = i \<and> a \<in> set [i..<length G] then q i a
       else G ! a ! b)"
    unfolding q_def by (rule r [THEN conjunct2, THEN conjunct2, rule_format, OF ab(1)])
  have s: "b \<in> set [i..<length G] \<longleftrightarrow> i \<le> b" "a \<in> set [i..<length G] \<longleftrightarrow> i \<le> a"
    using ab by simp_all
  have c: "q i a = q a i" unfolding q_def by (rule quad_sym)
  show "Gram_inner quad Lf lower upper (length G) i G ! a ! b =
         (if (a = i \<and> i \<le> b) \<or> (b = i \<and> i \<le> a) then q a b else G ! a ! b)"
    unfolding 1 s using c by (simp only: split: if_split, blast)
qed


lemma Gram_outer_fold:
  fixes quad :: "(fl \<Rightarrow> fl) \<Rightarrow> fl \<Rightarrow> fl \<Rightarrow> fl" and Lf :: "fl \<Rightarrow> nat \<Rightarrow> fl"
    and lower upper :: fl
  defines "q \<equiv> \<lambda>i j. quad (\<lambda>x. fmul (Lf x i) (Lf x j)) lower upper"
  assumes "list_all (\<lambda>r. length r = n) G" "length G = n" "\<forall>i \<in> set is. i < n"
  shows "length (fold (Gram_inner quad Lf lower upper n) is G) = n
    \<and> list_all (\<lambda>r. length r = n) (fold (Gram_inner quad Lf lower upper n) is G)
    \<and> (\<forall>a<n. \<forall>b<n.
         fold (Gram_inner quad Lf lower upper n) is G ! a ! b =
         (if \<exists>i \<in> set is. (a = i \<and> i \<le> b) \<or> (b = i \<and> i \<le> a) then q a b
          else G ! a ! b))"
  using assms(2-)
proof (induction "is" arbitrary: G)
  case Nil
  then show ?case by simp
next
  case (Cons i "is")
  let ?G1 = "Gram_inner quad Lf lower upper n i G"
  from Cons.prems have sq: "list_all (\<lambda>r. length r = length G) G" and i: "i < length G"
    by simp_all
  note r = Gram_inner_result [OF sq i, where quad = quad and Lf = Lf and lower = lower
      and upper = upper, unfolded Cons.prems(2), folded q_def]
  from Cons.prems(3) have "\<forall>i \<in> set is. i < n" by simp
  note IH = Cons.IH [OF r(2) r(1) this]
  have e: "fold (Gram_inner quad Lf lower upper n) (i # is) G =
      fold (Gram_inner quad Lf lower upper n) is ?G1" by simp
  have "fold (Gram_inner quad Lf lower upper n) is ?G1 ! a ! b =
         (if \<exists>i' \<in> set (i # is). (a = i' \<and> i' \<le> b) \<or> (b = i' \<and> i' \<le> a) then q a b
          else G ! a ! b)" if ab: "a < n" "b < n" for a b
  proof -
    have 1: "fold (Gram_inner quad Lf lower upper n) is ?G1 ! a ! b =
         (if \<exists>i \<in> set is. (a = i \<and> i \<le> b) \<or> (b = i \<and> i \<le> a) then q a b
          else ?G1 ! a ! b)"
      by (rule IH [THEN conjunct2, THEN conjunct2, rule_format, OF ab])
    have 2: "?G1 ! a ! b =
        (if (a = i \<and> i \<le> b) \<or> (b = i \<and> i \<le> a) then q a b else G ! a ! b)"
      unfolding q_def by (rule r(3) [OF ab])
    show ?thesis unfolding 1 2 list.set bex_simps ball_simps
      by (simp only: split: if_split, blast)
  qed
  then have 3: "\<forall>a<n. \<forall>b<n. fold (Gram_inner quad Lf lower upper n) is ?G1 ! a ! b =
         (if \<exists>i' \<in> set (i # is). (a = i' \<and> i' \<le> b) \<or> (b = i' \<and> i' \<le> a) then q a b
          else G ! a ! b)" by (intro allI impI)
  show ?case unfolding e
    by (intro conjI IH [THEN conjunct1] IH [THEN conjunct2, THEN conjunct1] 3)
qed

lemma Gram_loops_result:
  shows "length (Gram_loops quad Lf lower upper n) = n"
    "list_all (\<lambda>r. length r = n) (Gram_loops quad Lf lower upper n)"
    "a < n \<Longrightarrow> b < n \<Longrightarrow>
       Gram_loops quad Lf lower upper n ! a ! b =
         quad (\<lambda>x. fmul (Lf x a) (Lf x b)) lower upper"
proof -
  let ?G0 = "replicate n (replicate n (Fin 0))"
  have h: "list_all (\<lambda>r. length r = n) ?G0" "length ?G0 = n" "\<forall>i \<in> set [0..<n]. i < n"
    by (simp_all add: list_all_length)
  note r = Gram_outer_fold [OF h, where quad = quad and Lf = Lf and lower = lower
      and upper = upper, folded Gram_loops_def]
  from r show "length (Gram_loops quad Lf lower upper n) = n"
    "list_all (\<lambda>r. length r = n) (Gram_loops quad Lf lower upper n)"
    by (rule conjunct1, rule conjunct2 [THEN conjunct1])
  assume ab: "a < n" "b < n"
  have ex: "\<exists>i \<in> set [0..<n]. (a = i \<and> i \<le> b) \<or> (b = i \<and> i \<le> a)"
  proof (cases "a \<le> b")
    case True
    with ab show ?thesis by (intro bexI [of _ a]) simp_all
  next
    case False
    with ab show ?thesis by (intro bexI [of _ b]) simp_all
  qed
  from r [THEN conjunct2, THEN conjunct2, rule_format, OF ab] ex
  show "Gram_loops quad Lf lower upper n ! a ! b =
         quad (\<lambda>x. fmul (Lf x a) (Lf x b)) lower upper"
    by (simp only: if_True)
qed


lemma fdiv_half: "fdiv (fdiv l (Fin 2)) v = fdiv l (fmul (Fin 2) v)"
  by (cases l; cases v) (auto simp: zero_less_mult_iff zero_le_mult_iff)

lemma inv_lengthscale_D1:
  assumes "exponential_inv k" "D k = 1"
  shows "\<exists>l. lengthscale k = [l]"
  using assms by (cases "lengthscale k") (auto simp: exponential_inv_def split: if_splits)

section \<open>Parameters\<close>

lemma set_params_fields:
  assumes "set_params k v = Inr k'"
  shows "D k' = D k" "ARD k' = ARD k" "Nparam k' = Nparam k" "name k' = name k"
    "get_params k' = v" "int (length v) = Nparam k"
  using assms by (auto simp: set_params_def get_params_def split: if_splits list.splits)

lemma set_params_inv:
  assumes "set_params k v = Inr k'" "exponential_inv k"
  shows "exponential_inv k'"
  using assms
  by (auto simp: set_params_def exponential_inv_def split: if_splits list.splits)

lemma set_params_succeeds:
  assumes "exponential_inv k" "int (length v) = Nparam k"
  shows "\<exists>k'. set_params k v = Inr k'"
  using assms by (cases v) (auto simp: set_params_def exponential_inv_def)

lemma init_inv:
  assumes "init d var ls ard = Inr k"
  shows "exponential_inv k"
  using assms
  by (auto simp: init_def init_lengthscale_def set_params_def exponential_inv_def
      split: sum.splits if_splits option.splits)

lemma set_params_all_last:
  assumes "exponential_inv k" "\<forall>v \<in> set vs. int (length v) = Nparam k" "vs \<noteq> []"
  shows "\<exists>k'. set_params_all k vs = Inr k' \<and> get_params k' = last vs"
  using assms
proof (induction vs arbitrary: k)
  case Nil
  then show ?case by simp
next
  case (Cons v vs)
  from set_params_succeeds [OF Cons.prems(1)] Cons.prems(2)
  obtain k1 where k1: "set_params k v = Inr k1" by auto
  note f = set_params_fields [OF k1] set_params_inv [OF k1 Cons.prems(1)]
  show ?case
  proof (cases "vs = []")
    case True
    with k1 f show ?thesis by simp
  next
    case False
    from Cons.prems(2) f have "\<forall>u \<in> set vs. int (length u) = Nparam k1" by simp
    from Cons.IH [OF f(7) this False] k1 False show ?thesis by simp
  qed
qed

text \<open>
  C5: for a kernel as the constructor builds it and a vector \<open>v\<close> of \<open>Nparam\<close> entries
  (2 without ARD, \<open>D + 1\<close> with it), \<open>_set_params(v)\<close> succeeds and \<open>_get_params()\<close>
  then returns \<open>v\<close>: the variance first, the lengthscale after it. The same holds at the
  end of any sequence of such calls: \<open>_get_params()\<close> returns the vector set last.
\<close>

theorem set_get_params_roundtrip:
  assumes "exponential_inv k" "int (length v) = Nparam k"
    "\<forall>u \<in> set vs. int (length u) = Nparam k"
  shows "\<exists>k' k''. set_params k v = Inr k' \<and> get_params k' = v
           \<and> get_params k' = variance k' # lengthscale k'
           \<and> Nparam k' = (if ARD k' then D k' + 1 else 2)
           \<and> set_params_all k (vs @ [v]) = Inr k'' \<and> get_params k'' = v"
proof -
  from set_params_succeeds [OF assms(1,2)]
  obtain k' where k': "set_params k v = Inr k'" by auto
  from set_params_inv [OF k' assms(1)]
  have n: "Nparam k' = (if ARD k' then D k' + 1 else 2)"
    by (simp add: exponential_inv_def)
  from assms(2,3) have "\<forall>u \<in> set (vs @ [v]). int (length u) = Nparam k" by auto
  from set_params_all_last [OF assms(1) this]
  obtain k'' where "set_params_all k (vs @ [v]) = Inr k''" "get_params k'' = v" by auto
  with k' set_params_fields(5) [OF k'] n show ?thesis
    by (auto simp: get_params_def)
qed

theorem set_get_params_roundtrip_witness:
  "exponential_inv \<lparr>D = 1, ARD = False, Nparam = 2, name = ''exp'', variance = Fin 1,
       lengthscale = [Fin 1]\<rparr>
   \<and> int (length [Fin 2, Fin 3]) = 2
   \<and> int (length [Fin 5, Fin 7]) = 2
   \<and> (\<exists>k' k''.
         set_params \<lparr>D = 1, ARD = False, Nparam = 2, name = ''exp'', variance = Fin 1,
             lengthscale = [Fin 1]\<rparr> [Fin 2, Fin 3] = Inr k'
         \<and> get_params k' = [Fin 2, Fin 3]
         \<and> set_params_all \<lparr>D = 1, ARD = False, Nparam = 2, name = ''exp'',
             variance = Fin 1, lengthscale = [Fin 1]\<rparr> [[Fin 5, Fin 7], [Fin 2, Fin 3]]
             = Inr k''
         \<and> get_params k'' = [Fin 2, Fin 3])"
  using set_get_params_roundtrip
    [of "\<lparr>D = 1, ARD = False, Nparam = 2, name = ''exp'', variance = Fin 1,
           lengthscale = [Fin 1]\<rparr>" "[Fin 2, Fin 3]" "[[Fin 5, Fin 7]]"]
  by (auto simp: exponential_inv_def)

section \<open>Assertions\<close>

text \<open>
  C9: the constructor raises AssertionError for a supplied lengthscale whose shape is not
  \<open>(1,)\<close> without ARD, or not \<open>(D,)\<close> with ARD; \<open>_set_params\<close> raises it for a vector
  whose size is not \<open>Nparam\<close>, before it assigns anything; \<open>Gram_matrix\<close> raises it
  whenever \<open>D\<close> is not 1. In each case the call ends with the exception: no kernel, no
  new state and no matrix is returned.
\<close>

theorem shape_assertions:
  "(shape a \<noteq> [1] \<longrightarrow> init d var (Some a) False = Inl AssertionError)
   \<and> (map int (shape a) \<noteq> [d] \<longrightarrow> init d var (Some a) True = Inl AssertionError)
   \<and> (int (length v) \<noteq> Nparam k \<longrightarrow> set_params k v = Inl AssertionError)
   \<and> (D k \<noteq> 1 \<longrightarrow> Gram_matrix quad k F F1 lower upper = Inl AssertionError)"
  by (simp add: init_def init_lengthscale_def set_params_def Gram_matrix_def)

theorem shape_assertions_witness:
  "shape \<lparr>shape = [2], data = [Fin 1, Fin 1]\<rparr> \<noteq> [1]
   \<and> init 2 (Fin 1) (Some \<lparr>shape = [2], data = [Fin 1, Fin 1]\<rparr>) False = Inl AssertionError
   \<and> map int (shape \<lparr>shape = [2], data = [Fin 1, Fin 1]\<rparr>) \<noteq> [3]
   \<and> init 3 (Fin 1) (Some \<lparr>shape = [2], data = [Fin 1, Fin 1]\<rparr>) True = Inl AssertionError
   \<and> int (length [Fin 1, Fin 2, Fin 3]) \<noteq>
       Nparam \<lparr>D = 2, ARD = False, Nparam = 2, name = ''exp'', variance = Fin 1,
                lengthscale = [Fin 1]\<rparr>
   \<and> set_params \<lparr>D = 2, ARD = False, Nparam = 2, name = ''exp'', variance = Fin 1,
         lengthscale = [Fin 1]\<rparr> [Fin 1, Fin 2, Fin 3] = Inl AssertionError
   \<and> D \<lparr>D = 2, ARD = False, Nparam = 2, name = ''exp'', variance = Fin 1,
          lengthscale = [Fin 1]\<rparr> \<noteq> 1
   \<and> Gram_matrix (\<lambda>f a b. Fin 0)
        \<lparr>D = 2, ARD = False, Nparam = 2, name = ''exp'', variance = Fin 1,
          lengthscale = [Fin 1]\<rparr> [] [] (Fin 0) (Fin 1) = Inl AssertionError"
  using shape_assertions
    [of "\<lparr>shape = [2], data = [Fin 1, Fin 1]\<rparr>" 2 "Fin 1" 
        "[Fin 1, Fin 2, Fin 3]"
        "\<lparr>D = 2, ARD = False, Nparam = 2, name = ''exp'', variance = Fin 1,
          lengthscale = [Fin 1]\<rparr>"
        "\<lambda>f a b. Fin 0" "[]" "[]" "Fin 0" "Fin 1"]
    shape_assertions [of "\<lparr>shape = [2], data = [Fin 1, Fin 1]\<rparr>" 3 "Fin 1"]
  by simp

section \<open>The diagonal's derivatives\<close>

text \<open>
  C8: \<open>dKdiag_dtheta\<close> adds the sum of all entries of \<open>partial\<close> to \<open>target[0]\<close> and
  leaves every other entry of the target, the lengthscale slots \<open>target[1:]\<close>, as it
  was (a target without an entry has no \<open>target[0]\<close>: IndexError); \<open>dKdiag_dX\<close> leaves
  its target as it was.
\<close>

theorem dKdiag_frame:
  "(target \<noteq> [] \<longrightarrow>
      dKdiag_dtheta k partial A target =
        Inr (target[0 := fadd (target ! 0) (fsum (concat (rows partial)))]))
   \<and> (target = [] \<longrightarrow> dKdiag_dtheta k partial A target = Inl IndexError)
   \<and> (\<forall>t'. dKdiag_dtheta k partial A target = Inr t' \<longrightarrow>
          length t' = length target
          \<and> t' ! 0 = fadd (target ! 0) (fsum (concat (rows partial)))
          \<and> (\<forall>i. 0 < i \<and> i < length target \<longrightarrow> t' ! i = target ! i)
          \<and> drop 1 t' = drop 1 target)
   \<and> dKdiag_dX k A T = T"
  by (auto simp: dKdiag_dtheta_def dKdiag_dX_def split: list.splits)

theorem dKdiag_frame_witness:
  "[Fin 1, Fin 10, Fin 20] \<noteq> []
   \<and> dKdiag_dtheta
        \<lparr>D = 2, ARD = True, Nparam = 3, name = ''exp_ARD'', variance = Fin 1,
          lengthscale = [Fin 1, Fin 1]\<rparr>
        \<lparr>ncols = 2, rows = [[Fin 1, Fin 2], [Fin 3, Fin 4]]\<rparr>
        \<lparr>ncols = 2, rows = [[Fin 0, Fin 0], [Fin 1, Fin 1]]\<rparr>
        [Fin 1, Fin 10, Fin 20] = Inr [Fin 11, Fin 10, Fin 20]
   \<and> dKdiag_dX
        \<lparr>D = 2, ARD = True, Nparam = 3, name = ''exp_ARD'', variance = Fin 1,
          lengthscale = [Fin 1, Fin 1]\<rparr>
        \<lparr>ncols = 2, rows = [[Fin 0, Fin 0], [Fin 1, Fin 1]]\<rparr>
        \<lparr>ncols = 2, rows = [[Fin 5, Fin 6], [Fin 7, Fin 8]]\<rparr>
       = \<lparr>ncols = 2, rows = [[Fin 5, Fin 6], [Fin 7, Fin 8]]\<rparr>"
  using dKdiag_frame
    [of "[Fin 1, Fin 10, Fin 20]"
        "\<lparr>D = 2, ARD = True, Nparam = 3, name = ''exp_ARD'', variance = Fin 1,
          lengthscale = [Fin 1, Fin 1]\<rparr>"
        "\<lparr>ncols = 2, rows = [[Fin 1, Fin 2], [Fin 3, Fin 4]]\<rparr>"
        "\<lparr>ncols = 2, rows = [[Fin 0, Fin 0], [Fin 1, Fin 1]]\<rparr>"
        "\<lparr>ncols = 2, rows = [[Fin 5, Fin 6], [Fin 7, Fin 8]]\<rparr>"]
  by (simp add: fsum_def)

section \<open>The covariance matrix\<close>

text \<open>
  C1: the kernel constructed with \<open>D = 1\<close>, variance 1, lengthscale \<open>[1]\<close> and no ARD,
  called on \<open>X = [[0],[1],[3]]\<close> without \<open>X2\<close> and with a \<open>3 \<times> 3\<close> target of zeros, leaves
  in the target the matrix with 1 on the diagonal, \<open>e\<^sup>-\<^sup>1\<close> at \<open>[0,1]\<close>, \<open>e\<^sup>-\<^sup>3\<close> at
  \<open>[0,2]\<close>, \<open>e\<^sup>-\<^sup>2\<close> at \<open>[1,2]\<close> and the same below the diagonal. With exact reals the
  entries are these values themselves, hence within \<open>10\<^sup>-\<^sup>9\<close> of them.
\<close>

theorem K_example:
  "\<exists>k R. init 1 (Fin 1) (Some \<lparr>shape = [1], data = [Fin 1]\<rparr>) False = Inr k
     \<and> K k \<lparr>ncols = 1, rows = [[Fin 0], [Fin 1], [Fin 3]]\<rparr> None (zeros2 3 3) = Inr R
     \<and> ncols R = 3
     \<and> rows R = [[Fin 1, Fin (exp (- 1)), Fin (exp (- 3))],
                 [Fin (exp (- 1)), Fin 1, Fin (exp (- 2))],
                 [Fin (exp (- 3)), Fin (exp (- 2)), Fin 1]]
     \<and> list_all2 (list_all2 (close_to (1 / 10 ^ 9))) (rows R)
          [[1, exp (- 1), exp (- 3)],
           [exp (- 1), 1, exp (- 2)],
           [exp (- 3), exp (- 2), 1]]"
  by (simp add: init_def init_lengthscale_def set_params_def K_def X2_or_def zeros2_def
      bcast_lengthscale_def dist_of_def pdiff_def add2_def nrows_def fsum_def fsquare_def
      fsub_def sqrt9 numeral_3_eq_3)

text \<open>
  C3: for every \<open>X\<close> of \<open>N\<close> rows and every symmetric \<open>N \<times> N\<close> target, \<open>K(X, None, target)\<close>
  returns and leaves a symmetric matrix in the target: the entries \<open>[i,j]\<close> and \<open>[j,i]\<close>
  hold the same value, for all floats whatsoever. When \<open>X\<close>, the target, the variance and
  the lengthscale are real numbers and no lengthscale is 0, every entry is a real number,
  and the two entries are equal for the float comparison \<open>==\<close> as well (which NaN
  fails against itself).
\<close>

theorem K_symmetric:
  assumes "length (lengthscale k) = 1 \<or> length (lengthscale k) = ncols A"
    "wf_array2 T" "nrows T = nrows A" "ncols T = nrows A"
    "\<forall>i<nrows A. \<forall>j<nrows A. rows T ! i ! j = rows T ! j ! i"
  shows "\<exists>R. K k A None T = Inr R \<and> nrows R = nrows A \<and> ncols R = nrows A \<and> wf_array2 R
     \<and> (\<forall>i<nrows A. \<forall>j<nrows A. rows R ! i ! j = rows R ! j ! i)
     \<and> (real_array A \<and> real_array T \<and> is_fin (variance k)
          \<and> list_all nonzero_fin (lengthscale k) \<longrightarrow>
        (\<forall>i<nrows A. \<forall>j<nrows A. feq (rows R ! i ! j) (rows R ! j ! i)))"
proof -
  from K_succeeds [OF assms(1,3,4)] assms(2) obtain R where
    R: "K k A None T = Inr R" "nrows R = nrows A" "ncols R = nrows A" "wf_array2 R"
    by auto
  have sym: "rows R ! i ! j = rows R ! j ! i" if "i < nrows A" "j < nrows A" for i j
    using K_entry [OF R(1) assms(2) that] K_entry [OF R(1) assms(2) that(2,1)]
      dist_of_sym [OF that] assms(5) that
    by auto
  have "feq (rows R ! i ! j) (rows R ! j ! i)"
    if h: "real_array A" "real_array T" "is_fin (variance k)"
      "list_all nonzero_fin (lengthscale k)" and ij: "i < nrows A" "j < nrows A" for i j
  proof -
    from K_entry [OF R(1) assms(2) ij] obtain ls where
      ls: "bcast_lengthscale (lengthscale k) (ncols A) = Some ls"
      and e: "rows R ! i ! j =
        fadd (fmul (variance k) (fexp (fneg (dist_of ls A A ! i ! j)))) (rows T ! i ! j)"
      by auto
    from pair_dist_fin [OF real_array_row [OF h(1) ij(1)] real_array_row [OF h(1) ij(2)]
        bcast_lengthscale_Some(2) [OF ls h(4)]]
    obtain r where r: "dist_of ls A A ! i ! j = Fin r" by (auto simp: dist_of_nth ij)
    from h(3) obtain v where v: "variance k = Fin v" by (cases "variance k") auto
    from real_array_row [OF h(2), of i] ij assms(3,4) wf_array2_row [OF assms(2), of i]
    obtain t where t: "rows T ! i ! j = Fin t"
      by (cases "rows T ! i ! j") (auto simp: list_all_length)
    from e r v t have "\<exists>a. rows R ! i ! j = Fin a" by simp
    with sym [OF ij] show ?thesis by (auto simp: feq_Fin)
  qed
  with R sym show ?thesis by blast
qed

theorem K_symmetric_witness:
  "wf_array2 (zeros2 2 2)
   \<and> (\<exists>R. K \<lparr>D = 1, ARD = False, Nparam = 2, name = ''exp'', variance = Fin 1,
      lengthscale = [Fin 1]\<rparr>
            \<lparr>ncols = 1, rows = [[Fin 0], [Fin 1]]\<rparr> None (zeros2 2 2) = Inr R
         \<and> wf_array2 R
         \<and> rows R ! 0 ! 1 = rows R ! 1 ! 0
         \<and> feq (rows R ! 0 ! 1) (rows R ! 1 ! 0))"
proof -
  let ?k = "\<lparr>D = 1, ARD = False, Nparam = 2, name = ''exp'', variance = Fin 1,
      lengthscale = [Fin 1]\<rparr>"
  let ?A = "\<lparr>ncols = 1, rows = [[Fin 0], [Fin 1]]\<rparr>"
  have n: "nrows ?A = 2" by (simp add: nrows_def)
  have h1: "length (lengthscale ?k) = 1 \<or> length (lengthscale ?k) = ncols ?A" by simp
  have h2: "wf_array2 (zeros2 2 2)" by (rule zeros2_simps)
  have h3: "nrows (zeros2 2 2) = nrows ?A" "ncols (zeros2 2 2) = nrows ?A"
    unfolding n by (simp_all add: zeros2_simps)
  have h4: "\<forall>i<nrows ?A. \<forall>j<nrows ?A.
      rows (zeros2 2 2) ! i ! j = rows (zeros2 2 2) ! j ! i"
    unfolding n by (simp add: zeros2_simps)
  have h5: "real_array ?A \<and> real_array (zeros2 2 2) \<and> is_fin (variance ?k)
      \<and> list_all nonzero_fin (lengthscale ?k)"
    by (simp add: real_array_def zeros2_def numeral_2_eq_2)
  have lt: "(0::nat) < 2" "(1::nat) < 2" by simp_all
  from K_symmetric [OF h1 h2 h3 h4] h5 h2 lt show ?thesis
    unfolding n by blast
qed

text \<open>
  C4: on a target of \<open>N\<close> zeros, \<open>Kdiag\<close> leaves the variance in every entry. For a
  real-valued \<open>X\<close> and real lengthscales other than 0, the diagonal of what
  \<open>K(X, None, target)\<close> leaves in an \<open>N \<times> N\<close> target of zeros is the same: entry \<open>[i,i]\<close>
  is entry \<open>i\<close> of \<open>Kdiag\<close>'s vector, the variance.
\<close>

theorem Kdiag_is_variance:
  "Kdiag k A (replicate (nrows A) (Fin 0)) = replicate (nrows A) (variance k)
   \<and> (real_array A \<and> list_all nonzero_fin (lengthscale k)
        \<and> (length (lengthscale k) = 1 \<or> length (lengthscale k) = ncols A) \<longrightarrow>
      (\<exists>R. K k A None (zeros2 (nrows A) (nrows A)) = Inr R
         \<and> (\<forall>i<nrows A. rows R ! i ! i = Kdiag k A (replicate (nrows A) (Fin 0)) ! i
                \<and> rows R ! i ! i = variance k)))"
proof -
  have d: "Kdiag k A (replicate (nrows A) (Fin 0)) = replicate (nrows A) (variance k)"
    by (simp add: Kdiag_def fadd_zero)
  have "\<exists>R. K k A None (zeros2 (nrows A) (nrows A)) = Inr R
         \<and> (\<forall>i<nrows A. rows R ! i ! i = variance k)"
    if h: "real_array A" "list_all nonzero_fin (lengthscale k)"
      "length (lengthscale k) = 1 \<or> length (lengthscale k) = ncols A"
  proof -
    from K_succeeds [OF h(3), of "zeros2 (nrows A) (nrows A)"] obtain R where
      R: "K k A None (zeros2 (nrows A) (nrows A)) = Inr R" by (auto simp: zeros2_simps)
    have "rows R ! i ! i = variance k" if i: "i < nrows A" for i
    proof -
      from K_entry [OF R zeros2_simps(3) i i] obtain ls where
        ls: "bcast_lengthscale (lengthscale k) (ncols A) = Some ls"
        and e: "rows R ! i ! i =
          fadd (fmul (variance k) (fexp (fneg (dist_of ls A A ! i ! i)))) (Fin 0)"
        by (auto simp: zeros2_simps i)
      have "dist_of ls A A ! i ! i = Fin 0"
        using pair_dist_self [OF real_array_row [OF h(1) i] bcast_lengthscale_Some(2) [OF ls h(2)]]
        by (simp add: dist_of_nth i)
      with e show ?thesis by (simp add: fadd_zero fmul_one)
    qed
    with R show ?thesis by blast
  qed
  with d show ?thesis by auto
qed

theorem Kdiag_is_variance_witness:
  "real_array \<lparr>ncols = 1, rows = [[Fin 0], [Fin 1]]\<rparr>
   \<and> Kdiag \<lparr>D = 1, ARD = False, Nparam = 2, name = ''exp'', variance = Fin 1,
      lengthscale = [Fin 1]\<rparr>
        \<lparr>ncols = 1, rows = [[Fin 0], [Fin 1]]\<rparr> (replicate 2 (Fin 0)) = replicate 2 (Fin 1)
   \<and> (\<exists>R. K \<lparr>D = 1, ARD = False, Nparam = 2, name = ''exp'', variance = Fin 1,
      lengthscale = [Fin 1]\<rparr>
            \<lparr>ncols = 1, rows = [[Fin 0], [Fin 1]]\<rparr> None (zeros2 2 2) = Inr R
         \<and> rows R ! 0 ! 0 = Fin 1 \<and> rows R ! 1 ! 1 = Fin 1)"
proof -
  let ?k = "\<lparr>D = 1, ARD = False, Nparam = 2, name = ''exp'', variance = Fin 1,
      lengthscale = [Fin 1]\<rparr>"
  let ?A = "\<lparr>ncols = 1, rows = [[Fin 0], [Fin 1]]\<rparr>"
  have n: "nrows ?A = 2" by (simp add: nrows_def)
  have h: "real_array ?A \<and> list_all nonzero_fin (lengthscale ?k)
      \<and> (length (lengthscale ?k) = 1 \<or> length (lengthscale ?k) = ncols ?A)"
    by (simp add: real_array_def)
  have v: "variance ?k = Fin 1" by simp
  have lt: "(0::nat) < 2" "(1::nat) < 2" by simp_all
  from Kdiag_is_variance [of ?k ?A] h lt show ?thesis
    unfolding n v by blast
qed

section \<open>Zero distances in the derivatives\<close>

text \<open>
  C2, as the code has it: let \<open>X\<close> be real-valued with two identical rows \<open>i\<close> and \<open>j\<close>, in
  a kernel whose variance and lengthscales are real numbers, no lengthscale 0, and let
  \<open>partial\<close> be real-valued. Then the scaled distance of the pair is 0 and its
  reciprocal is taken as 0 (the reciprocal of the infinity that \<open>np.where\<close> puts in its
  place). When no lengthscale has a cube that float64 rounds to 0, what the pair adds to
  the lengthscale entries of \<open>dK_dtheta\<close>'s target is exactly 0: the entry \<open>[i,j]\<close> of
  \<open>dl*partial\<close>, with ARD (every \<open>d\<close>) and without. When no lengthscale has a square that
  rounds to 0, what the pair adds to \<open>dK_dX\<close>'s target is exactly 0: the entry \<open>[j,i,d]\<close>
  of \<open>dK_dX*partial.T[:,:,None]\<close>. The two functions raise nothing for targets of the
  kernel's shapes and return the target plus the sums of these arrays; when all rows of
  \<open>X\<close> are equal, \<open>dK_dX\<close> returns its target as it was and \<open>dK_dtheta\<close> returns the
  lengthscale entries as they were.
\<close>

theorem zero_distance_masking_in_range:
  assumes "wf_array2 A" "real_array A"
    "wf_array2 P" "real_array P" "nrows P = nrows A" "ncols P = nrows A"
    "is_fin (variance k)" "list_all nonzero_fin (lengthscale k)"
    "bcast_lengthscale (lengthscale k) (ncols A) = Some ls"
    "i < nrows A" "j < nrows A" "rows A ! i = rows A ! j"
  shows "dist_of ls A A ! i ! j = Fin 0
     \<and> invdist_of (dist_of ls A A) ! i ! j = Fin 0
     \<and> (list_all (pow_in_range 3) (lengthscale k) \<longrightarrow>
          dl_partial (variance k) ls (rows P) A A ! i ! j = Fin 0
          \<and> (\<forall>d<ncols A. dl_partial_ARD (variance k) ls (rows P) A A ! i ! j ! d = Fin 0))
     \<and> (list_all (pow_in_range 2) (lengthscale k) \<longrightarrow>
          (\<forall>d<ncols A. dK_dX_partial (variance k) ls P A A ! j ! i ! d = Fin 0))
     \<and> (\<forall>T. nrows T = nrows A \<and> ncols T = ncols A \<longrightarrow>
           dK_dX k P A None T =
             Inr (T\<lparr>rows := add2 (rows T)
                    (sum_axis0_mat (nrows A) (ncols A)
                       (dK_dX_partial (variance k) ls P A A))\<rparr>))
     \<and> (\<forall>t0 t1 ts. \<not> ARD k \<longrightarrow>
           dK_dtheta k P A None (t0 # t1 # ts) =
             Inr (fadd t0 (fsum (concat (mul2 (dvar_of (dist_of ls A A)) (rows P))))
                  # fadd t1 (fsum (concat (dl_partial (variance k) ls (rows P) A A)))
                  # ts))
     \<and> (\<forall>t0 ts. ARD k \<and> length ts = ncols A \<longrightarrow>
           dK_dtheta k P A None (t0 # ts) =
             Inr (fadd t0 (fsum (concat (mul2 (dvar_of (dist_of ls A A)) (rows P))))
                  # map2 fadd ts
                      (sum_axis0_vec (ncols A)
                         (sum_axis0_mat (nrows A) (ncols A)
                            (dl_partial_ARD (variance k) ls (rows P) A A)))))
     \<and> ((\<forall>i'<nrows A. rows A ! i' = rows A ! 0) \<longrightarrow>
          (list_all (pow_in_range 2) (lengthscale k) \<longrightarrow>
             (\<forall>T. wf_array2 T \<and> nrows T = nrows A \<and> ncols T = ncols A \<longrightarrow>
                dK_dX k P A None T = Inr T))
          \<and> (list_all (pow_in_range 3) (lengthscale k) \<longrightarrow>
               (\<forall>t0 t1 ts. \<not> ARD k \<longrightarrow>
                  dK_dtheta k P A None (t0 # t1 # ts) =
                    Inr (fadd t0 (fsum (concat (mul2 (dvar_of (dist_of ls A A)) (rows P))))
                         # t1 # ts))
               \<and> (\<forall>t0 ts. ARD k \<and> length ts = ncols A \<longrightarrow>
                    dK_dtheta k P A None (t0 # ts) =
                      Inr (fadd t0 (fsum (concat (mul2 (dvar_of (dist_of ls A A)) (rows P))))
                           # ts))))"
proof -
  note z = pair_contributions_zero [OF assms]
  note vX = dK_dX_value [OF assms(9,5,6)]
  note vT = dK_dtheta_value [OF assms(9,5,6)]
  note vA = dK_dtheta_value_ARD [OF assms(9,5,6)]
  have c3: "dl_partial (variance k) ls (rows P) A A ! i ! j = Fin 0
          \<and> (\<forall>d<ncols A. dl_partial_ARD (variance k) ls (rows P) A A ! i ! j ! d = Fin 0)"
    if "list_all (pow_in_range 3) (lengthscale k)"
    using z(3) [OF that] z(4) [OF that] by blast
  have c2: "\<forall>d<ncols A. dK_dX_partial (variance k) ls P A A ! j ! i ! d = Fin 0"
    if "list_all (pow_in_range 2) (lengthscale k)"
    using z(5) [OF that] by blast
  have b: "(list_all (pow_in_range 2) (lengthscale k) \<longrightarrow>
             (\<forall>T. wf_array2 T \<and> nrows T = nrows A \<and> ncols T = ncols A \<longrightarrow>
                dK_dX k P A None T = Inr T))
          \<and> (list_all (pow_in_range 3) (lengthscale k) \<longrightarrow>
               (\<forall>t0 t1 ts. \<not> ARD k \<longrightarrow>
                  dK_dtheta k P A None (t0 # t1 # ts) =
                    Inr (fadd t0 (fsum (concat (mul2 (dvar_of (dist_of ls A A)) (rows P))))
                         # t1 # ts))
               \<and> (\<forall>t0 ts. ARD k \<and> length ts = ncols A \<longrightarrow>
                    dK_dtheta k P A None (t0 # ts) =
                      Inr (fadd t0 (fsum (concat (mul2 (dvar_of (dist_of ls A A)) (rows P))))
                           # ts)))"
    if all: "\<forall>i'<nrows A. rows A ! i' = rows A ! 0"
  proof -
    note s = equal_rows_sums [OF assms(1-9) all]
    have "dK_dX k P A None T = Inr T"
      if r: "list_all (pow_in_range 2) (lengthscale k)"
        and T: "wf_array2 T" "nrows T = nrows A" "ncols T = ncols A" for T
    proof -
      have "add2 (rows T) (replicate (nrows A) (replicate (ncols A) (Fin 0))) = rows T"
        using T by (intro add2_zeros) (simp_all add: nrows_def wf_array2_def)
      then show ?thesis
        by (simp add: vX [OF T(2,3)] s(3) [OF r])
    qed
    moreover have "dK_dtheta k P A None (t0 # t1 # ts) =
        Inr (fadd t0 (fsum (concat (mul2 (dvar_of (dist_of ls A A)) (rows P)))) # t1 # ts)"
      if "list_all (pow_in_range 3) (lengthscale k)" "\<not> ARD k" for t0 t1 ts
      by (simp add: vT [OF that(2)] s(1) [OF that(1)] fadd_zero)
    moreover have "dK_dtheta k P A None (t0 # ts) =
        Inr (fadd t0 (fsum (concat (mul2 (dvar_of (dist_of ls A A)) (rows P)))) # ts)"
      if "list_all (pow_in_range 3) (lengthscale k)" "ARD k" "length ts = ncols A" for t0 ts
      by (simp only: vA [OF that(2,3)] s(2) [OF that(1)] map2_fadd_zeros [OF that(3)])
    ultimately show ?thesis by blast
  qed
  from z(1,2) c3 c2 vX vT vA b show ?thesis by blast
qed

theorem zero_distance_masking_in_range_witness:
  "rows \<lparr>ncols = 1, rows = [[Fin 1], [Fin 1], [Fin 3]]\<rparr> ! 0
     = rows \<lparr>ncols = 1, rows = [[Fin 1], [Fin 1], [Fin 3]]\<rparr> ! 1
   \<and> list_all (pow_in_range 3) [Fin 2] \<and> list_all (pow_in_range 2) [Fin 2]
   \<and> dl_partial (Fin 3) [Fin 2]
        (rows \<lparr>ncols = 3, rows = [[Fin 1, Fin 1, Fin 1], [Fin 1, Fin 1, Fin 1],
                            [Fin 1, Fin 1, Fin 1]]\<rparr>)
        \<lparr>ncols = 1, rows = [[Fin 1], [Fin 1], [Fin 3]]\<rparr>
        \<lparr>ncols = 1, rows = [[Fin 1], [Fin 1], [Fin 3]]\<rparr> ! 0 ! 1 = Fin 0
   \<and> dl_partial_ARD (Fin 3) [Fin 2]
        (rows \<lparr>ncols = 3, rows = [[Fin 1, Fin 1, Fin 1], [Fin 1, Fin 1, Fin 1],
                            [Fin 1, Fin 1, Fin 1]]\<rparr>)
        \<lparr>ncols = 1, rows = [[Fin 1], [Fin 1], [Fin 3]]\<rparr>
        \<lparr>ncols = 1, rows = [[Fin 1], [Fin 1], [Fin 3]]\<rparr> ! 0 ! 1 ! 0 = Fin 0
   \<and> dK_dX_partial (Fin 3) [Fin 2]
        \<lparr>ncols = 3, rows = [[Fin 1, Fin 1, Fin 1], [Fin 1, Fin 1, Fin 1],
                            [Fin 1, Fin 1, Fin 1]]\<rparr>
        \<lparr>ncols = 1, rows = [[Fin 1], [Fin 1], [Fin 3]]\<rparr>
        \<lparr>ncols = 1, rows = [[Fin 1], [Fin 1], [Fin 3]]\<rparr> ! 1 ! 0 ! 0 = Fin 0
   \<and> dK_dtheta
        \<lparr>D = 1, ARD = False, Nparam = 2, name = ''exp'', variance = Fin 3,
          lengthscale = [Fin 2]\<rparr>
        \<lparr>ncols = 3, rows = [[Fin 1, Fin 1, Fin 1], [Fin 1, Fin 1, Fin 1],
                            [Fin 1, Fin 1, Fin 1]]\<rparr>
        \<lparr>ncols = 1, rows = [[Fin 1], [Fin 1], [Fin 3]]\<rparr> None [Fin 0, Fin 0]
       = Inr [Fin (5 + 4 * exp (- 1)), Fin (6 * exp (- 1))]
   \<and> dK_dX
        \<lparr>D = 1, ARD = False, Nparam = 2, name = ''exp'', variance = Fin 3,
          lengthscale = [Fin 2]\<rparr>
        \<lparr>ncols = 3, rows = [[Fin 1, Fin 1, Fin 1], [Fin 1, Fin 1, Fin 1],
                            [Fin 1, Fin 1, Fin 1]]\<rparr>
        \<lparr>ncols = 1, rows = [[Fin 1], [Fin 1], [Fin 3]]\<rparr> None (zeros2 3 1)
       = Inr \<lparr>ncols = 1, rows = [[Fin (3 * exp (- 1) / 2)], [Fin (3 * exp (- 1) / 2)],
                                 [Fin (- (3 * exp (- 1)))]]\<rparr>"
proof -
  let ?k = "\<lparr>D = 1, ARD = False, Nparam = 2, name = ''exp'', variance = Fin 3,
          lengthscale = [Fin 2]\<rparr>"
  let ?A = "\<lparr>ncols = 1, rows = [[Fin 1], [Fin 1], [Fin 3]]\<rparr>"
  let ?P = "\<lparr>ncols = 3, rows = [[Fin 1, Fin 1, Fin 1], [Fin 1, Fin 1, Fin 1],
                            [Fin 1, Fin 1, Fin 1]]\<rparr>"
  have n: "nrows ?A = 3" "ncols ?A = 1" "variance ?k = Fin 3" "lengthscale ?k = [Fin 2]"
    by (simp_all add: nrows_def)
  have a: "wf_array2 ?A" "real_array ?A" "wf_array2 ?P" "real_array ?P"
    by (simp_all add: wf_array2_def real_array_def)
  have b: "nrows ?P = nrows ?A" "ncols ?P = nrows ?A" by (simp_all add: nrows_def)
  have c: "is_fin (variance ?k)" "list_all nonzero_fin (lengthscale ?k)"
    "bcast_lengthscale (lengthscale ?k) (ncols ?A) = Some [Fin 2]"
    by (simp_all add: bcast_lengthscale_def)
  have d: "0 < nrows ?A" "1 < nrows ?A" "rows ?A ! 0 = rows ?A ! 1"
    by (simp_all add: nrows_def)
  have r: "list_all (pow_in_range 3) [Fin 2]" "list_all (pow_in_range 2) [Fin 2]"
    by simp_all
  have e1: "dK_dtheta ?k ?P ?A None [Fin 0, Fin 0]
      = Inr [Fin (5 + 4 * exp (- 1)), Fin (6 * exp (- 1))]"
    by (simp add: dK_dtheta_def dl_partial_def X2_or_def bcast_lengthscale_def nrows_def
        Let_def dist_of_def pdiff_def fsub_def fsquare_def fsum_def fne_def mul2_def
        dvar_of_def invdist_of_def dist2M_of_def f64_range_def)
  have e2: "dK_dX ?k ?P ?A None (zeros2 3 1)
      = Inr \<lparr>ncols = 1, rows = [[Fin (3 * exp (- 1) / 2)], [Fin (3 * exp (- 1) / 2)],
                                 [Fin (- (3 * exp (- 1)))]]\<rparr>"
    by (simp add: dK_dX_def dK_dX_partial_def X2_or_def bcast_lengthscale_def nrows_def
        zeros2_def Let_def dist_of_def pdiff_def fsub_def fsquare_def fsum_def fne_def
        mul3l_def mul3r_def transp_def sum_axis0_mat_def add2_def numeral_3_eq_3
        f64_range_def)
  have r': "list_all (pow_in_range 3) (lengthscale ?k)"
    "list_all (pow_in_range 2) (lengthscale ?k)"
    by simp_all
  note th = zero_distance_masking_in_range [OF a b c d]
  note t3 = th [THEN conjunct2, THEN conjunct2, THEN conjunct1, THEN mp, OF r'(1)]
  note t2 = th [THEN conjunct2, THEN conjunct2, THEN conjunct2, THEN conjunct1, THEN mp,
      OF r'(2)]
  have lt: "(0::nat) < ncols ?A" by simp
  note p1 = t3 [THEN conjunct1, unfolded n]
  note p2 = t3 [THEN conjunct2, rule_format, OF lt, unfolded n]
  note p3 = t2 [rule_format, OF lt, unfolded n]
  show ?thesis
    by (intro conjI d(3) r p1 p2 p3 e1 e2)
qed

text \<open>
  C2 as it is stated fails where the power of a lengthscale leaves the range of float64:
  the divisions by \<open>self.lengthscale**3\<close> and \<open>self.lengthscale**2\<close> have no guard. For
  \<open>X = [[1.],[1.]]\<close>, variance 1 and \<open>partial\<close> of ones, the lengthscale \<open>1e-110\<close> has the
  cube 0, the pair's entry of \<open>dl*partial\<close> is \<open>0/0\<close> and \<open>dK_dtheta\<close> leaves NaN in the
  lengthscale entry; the lengthscale \<open>1e-170\<close> has the square 0 and \<open>dK_dX\<close> leaves NaN
  in its target.
\<close>

theorem zero_distance_masking_counterexample:
  "nonzero_fin (Fin (1 / 10 ^ 110)) \<and> nonzero_fin (Fin (1 / 10 ^ 170))
   \<and> rows \<lparr>ncols = 1, rows = [[Fin 1], [Fin 1]]\<rparr> ! 0
       = rows \<lparr>ncols = 1, rows = [[Fin 1], [Fin 1]]\<rparr> ! 1
   \<and> dist_of [Fin (1 / 10 ^ 110)]
        \<lparr>ncols = 1, rows = [[Fin 1], [Fin 1]]\<rparr>
        \<lparr>ncols = 1, rows = [[Fin 1], [Fin 1]]\<rparr> ! 0 ! 1 = Fin 0
   \<and> dl_partial (Fin 1) [Fin (1 / 10 ^ 110)]
        (rows \<lparr>ncols = 2, rows = [[Fin 1, Fin 1], [Fin 1, Fin 1]]\<rparr>)
        \<lparr>ncols = 1, rows = [[Fin 1], [Fin 1]]\<rparr>
        \<lparr>ncols = 1, rows = [[Fin 1], [Fin 1]]\<rparr> ! 0 ! 1 = NaN
   \<and> dK_dtheta
        \<lparr>D = 1, ARD = False, Nparam = 2, name = ''exp'', variance = Fin 1,
          lengthscale = [Fin (1 / 10 ^ 110)]\<rparr>
        \<lparr>ncols = 2, rows = [[Fin 1, Fin 1], [Fin 1, Fin 1]]\<rparr>
        \<lparr>ncols = 1, rows = [[Fin 1], [Fin 1]]\<rparr> None [Fin 0, Fin 0]
       = Inr [Fin 4, NaN]
   \<and> dK_dX_partial (Fin 1) [Fin (1 / 10 ^ 170)]
        \<lparr>ncols = 2, rows = [[Fin 1, Fin 1], [Fin 1, Fin 1]]\<rparr>
        \<lparr>ncols = 1, rows = [[Fin 1], [Fin 1]]\<rparr>
        \<lparr>ncols = 1, rows = [[Fin 1], [Fin 1]]\<rparr> ! 1 ! 0 ! 0 = NaN
   \<and> dK_dX
        \<lparr>D = 1, ARD = False, Nparam = 2, name = ''exp'', variance = Fin 1,
          lengthscale = [Fin (1 / 10 ^ 170)]\<rparr>
        \<lparr>ncols = 2, rows = [[Fin 1, Fin 1], [Fin 1, Fin 1]]\<rparr>
        \<lparr>ncols = 1, rows = [[Fin 1], [Fin 1]]\<rparr> None (zeros2 2 1)
       = Inr \<lparr>ncols = 1, rows = [[NaN], [NaN]]\<rparr>"
proof -
  define t where "t = Fin (1 / 10 ^ 110)"
  define u where "u = Fin (1 / 10 ^ 170)"
  let ?A = "\<lparr>ncols = 1, rows = [[Fin 1], [Fin 1]]\<rparr>"
  let ?P = "\<lparr>ncols = 2, rows = [[Fin 1, Fin 1], [Fin 1, Fin 1]]\<rparr>"
  have "fpow t 3 = Fin 0" unfolding t_def by (rule pow_underflow(1))
  moreover have "fdiv (Fin 0) t = Fin 0" "nonzero_fin t" unfolding t_def by simp_all
  ultimately have t: "fpow t 3 = Fin 0" "fdiv (Fin 0) t = Fin 0" "nonzero_fin t" .
  have "fpow u 2 = Fin 0" unfolding u_def by (rule pow_underflow(2))
  moreover have "fdiv (Fin 0) u = Fin 0" "nonzero_fin u" unfolding u_def by simp_all
  ultimately have u: "fpow u 2 = Fin 0" "fdiv (Fin 0) u = Fin 0" "nonzero_fin u" .
  have 1: "dist_of [t] ?A ?A ! 0 ! 1 = Fin 0"
    by (simp add: dist_of_def pdiff_def fsub_def fsquare_def fsum_def t)
  have 2: "dl_partial (Fin 1) [t] (rows ?P) ?A ?A ! 0 ! 1 = NaN"
    by (simp add: dl_partial_def Let_def dist_of_def pdiff_def fsub_def fsquare_def fsum_def
        fne_def mul2_def dvar_of_def invdist_of_def dist2M_of_def t)
  have 3: "dK_dtheta \<lparr>D = 1, ARD = False, Nparam = 2, name = ''exp'', variance = Fin 1,
          lengthscale = [t]\<rparr>
      ?P ?A None [Fin 0, Fin 0] = Inr [Fin 4, NaN]"
    by (simp add: dK_dtheta_def dl_partial_def X2_or_def bcast_lengthscale_def nrows_def
        Let_def dist_of_def pdiff_def fsub_def fsquare_def fsum_def fne_def mul2_def
        dvar_of_def invdist_of_def dist2M_of_def t)
  have 4: "dK_dX_partial (Fin 1) [u] ?P ?A ?A ! 1 ! 0 ! 0 = NaN"
    by (simp add: dK_dX_partial_def Let_def dist_of_def pdiff_def fsub_def fsquare_def
        fsum_def fne_def mul3l_def mul3r_def transp_def nrows_def numeral_2_eq_2
        u [unfolded numeral_2_eq_2])
  have 5: "dK_dX \<lparr>D = 1, ARD = False, Nparam = 2, name = ''exp'', variance = Fin 1,
          lengthscale = [u]\<rparr>
      ?P ?A None (zeros2 2 1) = Inr \<lparr>ncols = 1, rows = [[NaN], [NaN]]\<rparr>"
    by (simp add: dK_dX_def dK_dX_partial_def X2_or_def bcast_lengthscale_def nrows_def
        zeros2_def Let_def dist_of_def pdiff_def fsub_def fsquare_def fsum_def fne_def
        mul3l_def mul3r_def transp_def sum_axis0_mat_def add2_def numeral_2_eq_2
        u [unfolded numeral_2_eq_2])
  have 6: "rows ?A ! 0 = rows ?A ! 1" by simp
  from t(3) u(3) 1 2 3 4 5 6 show ?thesis unfolding t_def u_def by (intro conjI)
qed

section \<open>The latent-variable model's parameters and gradient\<close>

lemma gradient_layout_shaped:
  assumes "wf_array2 (X m)" "nrows (X m) = N m" "ncols (X m) = Q m"
    "wf_array2 (kern_dK_dX (kern m) (dL_dK m) (X m))"
    "nrows (kern_dK_dX (kern m) (dL_dK m) (X m)) = N m"
    "ncols (kern_dK_dX (kern m) (dL_dK m) (X m)) = Q m"
  shows "GPLVM_log_likelihood_gradients dL_dK m =
        flatten (scale2 (Fin 2) (kern_dK_dX (kern m) (dL_dK m) (X m)))
          @ kern_dK_dtheta (kern m) (dL_dK m) (X m)
     \<and> GPLVM_get_params m = flatten (X m) @ get_params_transformed (kern m)
     \<and> length (flatten (scale2 (Fin 2) (kern_dK_dX (kern m) (dL_dK m) (X m)))) = N m * Q m
     \<and> length (flatten (X m)) = N m * Q m
     \<and> (\<forall>n<N m. \<forall>q<Q m.
          GPLVM_log_likelihood_gradients dL_dK m ! (n * Q m + q) =
            fmul (Fin 2) (rows (kern_dK_dX (kern m) (dL_dK m) (X m)) ! n ! q)
          \<and> GPLVM_get_params m ! (n * Q m + q) = rows (X m) ! n ! q)
     \<and> (\<forall>t<length (kern_dK_dtheta (kern m) (dL_dK m) (X m)).
          GPLVM_log_likelihood_gradients dL_dK m ! (N m * Q m + t) =
            kern_dK_dtheta (kern m) (dL_dK m) (X m) ! t)
     \<and> (\<forall>t<length (get_params_transformed (kern m)).
          GPLVM_get_params m ! (N m * Q m + t) = get_params_transformed (kern m) ! t)"
proof -
  let ?G = "kern_dK_dX (kern m) (dL_dK m) (X m)"
  let ?S = "scale2 (Fin 2) ?G"
  have g: "GPLVM_log_likelihood_gradients dL_dK m = flatten ?S @ kern_dK_dtheta (kern m) (dL_dK m) (X m)"
    by (simp add: GPLVM_log_likelihood_gradients_def Let_def)
  have p: "GPLVM_get_params m = flatten (X m) @ get_params_transformed (kern m)"
    by (simp add: GPLVM_get_params_def)
  have lS: "length (flatten ?S) = N m * Q m"
    using flatten_length [OF scale2_simps(3) [OF assms(4)], of "Fin 2"] assms(5,6)
    by (simp add: scale2_simps)
  have lX: "length (flatten (X m)) = N m * Q m"
    using flatten_length [OF assms(1)] assms(2,3) by simp
  have e: "flatten ?S ! (n * Q m + q) = fmul (Fin 2) (rows ?G ! n ! q)
      \<and> flatten (X m) ! (n * Q m + q) = rows (X m) ! n ! q"
    if "n < N m" "q < Q m" for n q
    using flatten_nth [OF scale2_simps(3) [OF assms(4)], of n "Fin 2" q]
      flatten_nth [OF assms(1), of n q] that assms(2,3,5,6)
      wf_array2_row [OF assms(4), of n]
    by (simp add: scale2_simps)
  have e': "GPLVM_log_likelihood_gradients dL_dK m ! (n * Q m + q) = fmul (Fin 2) (rows ?G ! n ! q)
      \<and> GPLVM_get_params m ! (n * Q m + q) = rows (X m) ! n ! q"
    if "n < N m" "q < Q m" for n q
    using e [OF that] index_bound [OF that] by (simp add: g p nth_append lS lX)
  have t1: "GPLVM_log_likelihood_gradients dL_dK m ! (N m * Q m + t) =
            kern_dK_dtheta (kern m) (dL_dK m) (X m) ! t" for t
    by (simp add: g nth_append lS)
  have t2: "GPLVM_get_params m ! (N m * Q m + t) = get_params_transformed (kern m) ! t" for t
    by (simp add: p nth_append lX)
  from g p lS lX e' t1 t2 show ?thesis by blast
qed


text \<open>
  C6: \<open>_log_likelihood_gradients\<close> returns the flattened latent-coordinate gradient
  followed by the hyperparameter gradient, where the former is the kernel's \<open>dK_dX\<close> at
  the base model's \<open>dL_dK\<close> and \<open>X\<close>, every entry times 2, and the latter is the kernel's
  \<open>dK_dtheta\<close> at the same \<open>dL_dK\<close> and \<open>X\<close>. When \<open>X\<close> is \<open>N \<times> Q\<close> and the kernel
  answers \<open>dK_dX\<close> in that shape, this is the layout of \<open>_get_params\<close>: position
  \<open>n * Q + q\<close> holds \<open>X[n,q]\<close> there and twice \<open>dK_dX[n,q]\<close> here, and the positions from
  \<open>N * Q\<close> on hold the hyperparameters there and \<open>dK_dtheta\<close> here.
\<close>

theorem gradient_layout:
  "GPLVM_log_likelihood_gradients dL_dK m =
       flatten (scale2 (Fin 2) (kern_dK_dX (kern m) (dL_dK m) (X m)))
         @ kern_dK_dtheta (kern m) (dL_dK m) (X m)
   \<and> GPLVM_get_params m = flatten (X m) @ get_params_transformed (kern m)
   \<and> (wf_array2 (X m) \<and> nrows (X m) = N m \<and> ncols (X m) = Q m
        \<and> wf_array2 (kern_dK_dX (kern m) (dL_dK m) (X m))
        \<and> nrows (kern_dK_dX (kern m) (dL_dK m) (X m)) = N m
        \<and> ncols (kern_dK_dX (kern m) (dL_dK m) (X m)) = Q m \<longrightarrow>
      length (flatten (scale2 (Fin 2) (kern_dK_dX (kern m) (dL_dK m) (X m)))) = N m * Q m
      \<and> length (flatten (X m)) = N m * Q m
      \<and> (\<forall>n<N m. \<forall>q<Q m.
            GPLVM_log_likelihood_gradients dL_dK m ! (n * Q m + q) =
              fmul (Fin 2) (rows (kern_dK_dX (kern m) (dL_dK m) (X m)) ! n ! q)
            \<and> GPLVM_get_params m ! (n * Q m + q) = rows (X m) ! n ! q)
      \<and> (\<forall>t<length (kern_dK_dtheta (kern m) (dL_dK m) (X m)).
            GPLVM_log_likelihood_gradients dL_dK m ! (N m * Q m + t) =
              kern_dK_dtheta (kern m) (dL_dK m) (X m) ! t)
      \<and> (\<forall>t<length (get_params_transformed (kern m)).
            GPLVM_get_params m ! (N m * Q m + t) = get_params_transformed (kern m) ! t))"
proof (intro conjI impI)
  show "GPLVM_log_likelihood_gradients dL_dK m =
       flatten (scale2 (Fin 2) (kern_dK_dX (kern m) (dL_dK m) (X m)))
         @ kern_dK_dtheta (kern m) (dL_dK m) (X m)"
    by (simp add: GPLVM_log_likelihood_gradients_def Let_def)
  show "GPLVM_get_params m = flatten (X m) @ get_params_transformed (kern m)"
    by (simp add: GPLVM_get_params_def)
next
  assume h: "wf_array2 (X m) \<and> nrows (X m) = N m \<and> ncols (X m) = Q m
        \<and> wf_array2 (kern_dK_dX (kern m) (dL_dK m) (X m))
        \<and> nrows (kern_dK_dX (kern m) (dL_dK m) (X m)) = N m
        \<and> ncols (kern_dK_dX (kern m) (dL_dK m) (X m)) = Q m"
  then have g: "wf_array2 (X m)" "nrows (X m) = N m" "ncols (X m) = Q m"
    "wf_array2 (kern_dK_dX (kern m) (dL_dK m) (X m))"
    "nrows (kern_dK_dX (kern m) (dL_dK m) (X m)) = N m"
    "ncols (kern_dK_dX (kern m) (dL_dK m) (X m)) = Q m"
    by simp_all
  note r = gradient_layout_shaped [where m = m and dL_dK = dL_dK, OF g]
  from r show "length (flatten (scale2 (Fin 2) (kern_dK_dX (kern m) (dL_dK m) (X m))))
      = N m * Q m" by blast
  from r show "length (flatten (X m)) = N m * Q m" by blast
  from r show "\<forall>n<N m. \<forall>q<Q m.
            GPLVM_log_likelihood_gradients dL_dK m ! (n * Q m + q) =
              fmul (Fin 2) (rows (kern_dK_dX (kern m) (dL_dK m) (X m)) ! n ! q)
            \<and> GPLVM_get_params m ! (n * Q m + q) = rows (X m) ! n ! q" by blast
  from r show "\<forall>t<length (kern_dK_dtheta (kern m) (dL_dK m) (X m)).
            GPLVM_log_likelihood_gradients dL_dK m ! (N m * Q m + t) =
              kern_dK_dtheta (kern m) (dL_dK m) (X m) ! t" by blast
  from r show "\<forall>t<length (get_params_transformed (kern m)).
            GPLVM_get_params m ! (N m * Q m + t) = get_params_transformed (kern m) ! t"
    by blast
qed

theorem gradient_layout_witness:
  "wf_array2 (X
        \<lparr>X = \<lparr>ncols = 2, rows = [[Fin 1, Fin 2], [Fin 3, Fin 4]]\<rparr>, N = 2, Q = 2,
        kern = \<lparr>get_param_names_transformed = [''variance''],
                 get_params_transformed = [Fin 1],
                 kern_dK_dtheta = (\<lambda>g x. [Fin 7]),
                 kern_dK_dX = (\<lambda>g x. x)\<rparr>\<rparr>)
   \<and> GPLVM_log_likelihood_gradients X
        \<lparr>X = \<lparr>ncols = 2, rows = [[Fin 1, Fin 2], [Fin 3, Fin 4]]\<rparr>, N = 2, Q = 2,
        kern = \<lparr>get_param_names_transformed = [''variance''],
                 get_params_transformed = [Fin 1],
                 kern_dK_dtheta = (\<lambda>g x. [Fin 7]),
                 kern_dK_dX = (\<lambda>g x. x)\<rparr>\<rparr>
        = [Fin 2, Fin 4, Fin 6, Fin 8, Fin 7]
   \<and> GPLVM_get_params
        \<lparr>X = \<lparr>ncols = 2, rows = [[Fin 1, Fin 2], [Fin 3, Fin 4]]\<rparr>, N = 2, Q = 2,
        kern = \<lparr>get_param_names_transformed = [''variance''],
                 get_params_transformed = [Fin 1],
                 kern_dK_dtheta = (\<lambda>g x. [Fin 7]),
                 kern_dK_dX = (\<lambda>g x. x)\<rparr>\<rparr>
        = [Fin 1, Fin 2, Fin 3, Fin 4, Fin 1]"
proof -
  let ?m = "\<lparr>X = \<lparr>ncols = 2, rows = [[Fin 1, Fin 2], [Fin 3, Fin 4]]\<rparr>, N = 2, Q = 2,
        kern = \<lparr>get_param_names_transformed = [''variance''],
                 get_params_transformed = [Fin 1],
                 kern_dK_dtheta = (\<lambda>g x. [Fin 7]),
                 kern_dK_dX = (\<lambda>g x. x)\<rparr>\<rparr>"
  have h: "wf_array2 (X ?m)" "nrows (X ?m) = N ?m" "ncols (X ?m) = Q ?m"
    "wf_array2 (kern_dK_dX (kern ?m) (X ?m) (X ?m))"
    "nrows (kern_dK_dX (kern ?m) (X ?m) (X ?m)) = N ?m"
    "ncols (kern_dK_dX (kern ?m) (X ?m) (X ?m)) = Q ?m"
    by (simp_all add: wf_array2_def nrows_def)
  from gradient_layout [of X ?m] h(1) show ?thesis
    by (simp add: flatten_def scale2_def)
qed

text \<open>
  C7: for \<open>N > 1\<close> and \<open>Q > 1\<close>, the names of the latent coordinates come
  dimension-major: the name at position \<open>q * N + n\<close> is \<open>X_n_q\<close>. The values come
  row-major: the value at position \<open>n * Q + q\<close> is \<open>X[n,q]\<close>. So position 1 carries the
  name \<open>X_1_0\<close> and the value \<open>X[0,1]\<close>: a position \<open>k\<close> exists whose name is not the name
  of the entry of \<open>X\<close> whose value stands at \<open>k\<close>.
\<close>

theorem names_values_misaligned:
  assumes "1 < N m" "1 < Q m" "wf_array2 (X m)" "nrows (X m) = N m" "ncols (X m) = Q m"
  shows "(\<forall>n<N m. \<forall>q<Q m.
            GPLVM_get_param_names m ! (q * N m + n) = X_name n q
            \<and> X_name_indices m ! (q * N m + n) = (n, q)
            \<and> GPLVM_get_params m ! (n * Q m + q) = rows (X m) ! n ! q)
     \<and> GPLVM_get_param_names m ! 1 = ''X_1_0''
     \<and> X_name_indices m ! 1 = (1, 0)
     \<and> GPLVM_get_params m ! 1 = rows (X m) ! 0 ! 1
     \<and> (\<exists>k<N m * Q m.
           GPLVM_get_param_names m ! k \<noteq> X_name (k div Q m) (k mod Q m)
           \<and> X_name_indices m ! k \<noteq> (k div Q m, k mod Q m)
           \<and> GPLVM_get_params m ! k = rows (X m) ! (k div Q m) ! (k mod Q m))"
proof -
  have lX: "length (flatten (X m)) = N m * Q m"
    using flatten_length [OF assms(3)] assms(4,5) by simp
  have a: "GPLVM_get_param_names m ! (q * N m + n) = X_name n q
      \<and> X_name_indices m ! (q * N m + n) = (n, q)
      \<and> GPLVM_get_params m ! (n * Q m + q) = rows (X m) ! n ! q"
    if "n < N m" "q < Q m" for n q
    using X_names_nth [OF that, of X_name] X_names_nth [OF that, of Pair]
      index_bound [OF that(2,1)] index_bound [OF that]
      flatten_nth [OF assms(3), of n q] that assms(4,5)
    by (simp add: GPLVM_get_param_names_def X_name_indices_def GPLVM_get_params_def
        nth_append X_names_length lX)
  from a [of 1 0] a [of 0 1] assms(1,2)
  have b: "GPLVM_get_param_names m ! 1 = ''X_1_0''" "X_name_indices m ! 1 = (1, 0)"
    "GPLVM_get_params m ! 1 = rows (X m) ! 0 ! 1"
    by (simp_all add: X_name_1_0)
  have "1 * 1 < N m * Q m" using assms(1,2) by (intro mult_strict_mono) simp_all
  then have k: "1 < N m * Q m" "1 div Q m = 0" "1 mod Q m = 1"
    using assms(2) by simp_all
  have "GPLVM_get_param_names m ! 1 \<noteq> X_name (1 div Q m) (1 mod Q m)
      \<and> X_name_indices m ! 1 \<noteq> (1 div Q m, 1 mod Q m)
      \<and> GPLVM_get_params m ! 1 = rows (X m) ! (1 div Q m) ! (1 mod Q m)"
    unfolding k b by (simp add: X_name_1_0)
  with k(1) a b show ?thesis by blast
qed

theorem names_values_misaligned_witness:
  "1 < N
        \<lparr>X = \<lparr>ncols = 2, rows = [[Fin 1, Fin 2], [Fin 3, Fin 4]]\<rparr>, N = 2, Q = 2,
        kern = \<lparr>get_param_names_transformed = [''variance''],
                 get_params_transformed = [Fin 1],
                 kern_dK_dtheta = (\<lambda>g x. [Fin 7]),
                 kern_dK_dX = (\<lambda>g x. x)\<rparr>\<rparr>
   \<and> 1 < Q
        \<lparr>X = \<lparr>ncols = 2, rows = [[Fin 1, Fin 2], [Fin 3, Fin 4]]\<rparr>, N = 2, Q = 2,
        kern = \<lparr>get_param_names_transformed = [''variance''],
                 get_params_transformed = [Fin 1],
                 kern_dK_dtheta = (\<lambda>g x. [Fin 7]),
                 kern_dK_dX = (\<lambda>g x. x)\<rparr>\<rparr>
   \<and> GPLVM_get_param_names
        \<lparr>X = \<lparr>ncols = 2, rows = [[Fin 1, Fin 2], [Fin 3, Fin 4]]\<rparr>, N = 2, Q = 2,
        kern = \<lparr>get_param_names_transformed = [''variance''],
                 get_params_transformed = [Fin 1],
                 kern_dK_dtheta = (\<lambda>g x. [Fin 7]),
                 kern_dK_dX = (\<lambda>g x. x)\<rparr>\<rparr>
        = [''X_0_0'', ''X_1_0'', ''X_0_1'', ''X_1_1'', ''variance'']
   \<and> GPLVM_get_params
        \<lparr>X = \<lparr>ncols = 2, rows = [[Fin 1, Fin 2], [Fin 3, Fin 4]]\<rparr>, N = 2, Q = 2,
        kern = \<lparr>get_param_names_transformed = [''variance''],
                 get_params_transformed = [Fin 1],
                 kern_dK_dtheta = (\<lambda>g x. [Fin 7]),
                 kern_dK_dX = (\<lambda>g x. x)\<rparr>\<rparr>
        = [Fin 1, Fin 2, Fin 3, Fin 4, Fin 1]"
proof -
  let ?m = "\<lparr>X = \<lparr>ncols = 2, rows = [[Fin 1, Fin 2], [Fin 3, Fin 4]]\<rparr>, N = 2, Q = 2,
        kern = \<lparr>get_param_names_transformed = [''variance''],
                 get_params_transformed = [Fin 1],
                 kern_dK_dtheta = (\<lambda>g x. [Fin 7]),
                 kern_dK_dX = (\<lambda>g x. x)\<rparr>\<rparr>"
  have h: "1 < N ?m" "1 < Q ?m" "wf_array2 (X ?m)" "nrows (X ?m) = N ?m"
    "ncols (X ?m) = Q ?m"
    by (simp_all add: wf_array2_def nrows_def)
  have n: "GPLVM_get_param_names ?m = [''X_0_0'', ''X_1_0'', ''X_0_1'', ''X_1_1'', ''variance'']"
    by (simp add: GPLVM_get_param_names_def X_name_def str_of_nat.simps digit_def
        upt_conv_Cons)
  have p: "GPLVM_get_params ?m = [Fin 1, Fin 2, Fin 3, Fin 4, Fin 1]"
    by (simp add: GPLVM_get_params_def flatten_def)
  from names_values_misaligned [OF h] h(1,2) n p show ?thesis
    by simp
qed

section \<open>The Gram matrix's formula\<close>

lemma Gram_matrix_entries:
  assumes "exponential_inv k" "D k = 1" "length F \<le> length F1"
  shows "\<exists>l G. lengthscale k = [l] \<and> Gram_matrix quad k F F1 lower upper = Inr G
     \<and> nrows G = length F \<and> ncols G = length F \<and> wf_array2 G
     \<and> (\<forall>i<length F. \<forall>j<length F.
          rows G ! i ! j = rows G ! j ! i
          \<and> rows G ! i ! j =
              fadd (fmul (fdiv l (fmul (Fin 2) (variance k)))
                      (quad (\<lambda>x. fmul (L_op l F F1 x i) (L_op l F F1 x j)) lower upper))
                (fmul (fdiv (Fin 1) (variance k)) (fmul ((F ! i) lower) ((F ! j) lower))))"
proof -
  from inv_lengthscale_D1 [OF assms(1,2)] obtain l where l: "lengthscale k = [l]" by auto
  let ?n = "length F"
  let ?Gl = "Gram_loops quad (L_op l F F1) lower upper ?n"
  let ?c = "fdiv (fdiv l (Fin 2)) (variance k)"
  let ?c2 = "fdiv (Fin 1) (variance k)"
  let ?Fl = "map (\<lambda>f. f lower) F"
  let ?R = "add2 (map (map (fmul ?c)) ?Gl) (map (map (fmul ?c2)) (map (\<lambda>a. map (\<lambda>b. fmul a b) ?Fl) ?Fl))"
  let ?G = "\<lparr>ncols = ?n, rows = ?R\<rparr>"
  note gl = Gram_loops_result [where quad = quad and Lf = "L_op l F F1" and lower = lower
      and upper = upper and n = ?n]
  have g: "Gram_matrix quad k F F1 lower upper = Inr ?G"
    using assms(2,3) l by (simp add: Gram_matrix_def Let_def del: map_map)
  have lr: "length ?R = ?n" by (simp add: add2_def gl(1))
  have row: "length (?Gl ! i) = ?n" if "i < ?n" for i
    using gl(1,2) that by (simp add: list_all_length)
  have lrow: "length (?R ! i) = ?n" if "i < ?n" for i
    using that row [OF that] by (simp add: add2_def gl(1))
  have wf: "wf_array2 ?G"
    using lr lrow by (simp add: wf_array2_def list_all_length)
  have e: "?R ! i ! j =
      fadd (fmul (fdiv l (fmul (Fin 2) (variance k)))
              (quad (\<lambda>x. fmul (L_op l F F1 x i) (L_op l F F1 x j)) lower upper))
        (fmul ?c2 (fmul ((F ! i) lower) ((F ! j) lower)))"
    if ij: "i < ?n" "j < ?n" for i j
    using ij row [OF ij(1)] gl(3) [OF ij]
    by (simp add: add2_def gl(1) fdiv_half)
  have sym: "?R ! i ! j = ?R ! j ! i" if ij: "i < ?n" "j < ?n" for i j
    unfolding e [OF ij] e [OF ij(2,1)]
    by (simp only: quad_sym [where quad = quad and Lf = "L_op l F F1" and i = i and j = j]
        fmul_commute [of "(F ! i) lower"])
  from l g lr wf e sym show ?thesis
    by (intro exI [of _ l] exI [of _ ?G]) (simp add: nrows_def)
qed

text \<open>
  C10: for a kernel with \<open>D = 1\<close> as the constructor builds it (its lengthscale is one
  number \<open>l\<close>), basis functions \<open>F\<close> with derivatives \<open>F1\<close> and bounds \<open>lower\<close>, \<open>upper\<close>,
  \<open>Gram_matrix\<close> returns an \<open>n \<times> n\<close> matrix that is symmetric and whose entry \<open>[i,j]\<close> is
  \<open>l / (2 * variance)\<close> times the quadrature of \<open>L[F_i] * L[F_j]\<close> over the bounds, plus
  \<open>1 / variance\<close> times \<open>F_i(lower) * F_j(lower)\<close>, where \<open>L[f](x) = (1 / l) * f(x) + f'(x)\<close>
  is written out in the integrand. The quadrature is any function of its integrand and
  bounds.
\<close>

theorem Gram_matrix_formula:
  assumes "exponential_inv k" "D k = 1" "length F \<le> length F1"
  shows "\<exists>l G. lengthscale k = [l] \<and> Gram_matrix quad k F F1 lower upper = Inr G
     \<and> nrows G = length F \<and> ncols G = length F \<and> wf_array2 G
     \<and> (\<forall>i<length F. \<forall>j<length F.
          rows G ! i ! j = rows G ! j ! i
          \<and> rows G ! i ! j =
              fadd (fmul (fdiv l (fmul (Fin 2) (variance k)))
                      (quad (\<lambda>x. fmul (fadd (fmul (fdiv (Fin 1) l) ((F ! i) x)) ((F1 ! i) x))
                                      (fadd (fmul (fdiv (Fin 1) l) ((F ! j) x)) ((F1 ! j) x)))
                         lower upper))
                (fmul (fdiv (Fin 1) (variance k)) (fmul ((F ! i) lower) ((F ! j) lower))))"
  using Gram_matrix_entries [OF assms, of quad lower upper] unfolding L_op_def .


theorem Gram_matrix_formula_witness:
  "exponential_inv \<lparr>D = 1, ARD = False, Nparam = 2, name = ''exp'', variance = Fin 4,
          lengthscale = [Fin 2]\<rparr>
   \<and> D \<lparr>D = 1, ARD = False, Nparam = 2, name = ''exp'', variance = Fin 4,
          lengthscale = [Fin 2]\<rparr> = 1
   \<and> Gram_matrix
        (\<lambda>f a b. fmul (fdiv (fsub b a) (Fin 6))
                   (fadd (fadd (f a) (fmul (Fin 4) (f (fdiv (fadd a b) (Fin 2))))) (f b)))
        \<lparr>D = 1, ARD = False, Nparam = 2, name = ''exp'', variance = Fin 4,
          lengthscale = [Fin 2]\<rparr>
        [\<lambda>x. Fin 1, \<lambda>x. x] [\<lambda>x. Fin 0, \<lambda>x. Fin 1] (Fin 0) (Fin 1)
       = Inr \<lparr>ncols = 2, rows = [[Fin (5 / 16), Fin (5 / 32)],
                                 [Fin (5 / 32), Fin (19 / 48)]]\<rparr>"
proof -
  let ?k = "\<lparr>D = 1, ARD = False, Nparam = 2, name = ''exp'', variance = Fin 4,
          lengthscale = [Fin 2]\<rparr>"
  let ?quad = "(\<lambda>f a b. fmul (fdiv (fsub b a) (Fin 6))
                   (fadd (fadd (f a) (fmul (Fin 4) (f (fdiv (fadd a b) (Fin 2))))) (f b)))"
  let ?F = "[\<lambda>x :: fl. Fin 1, \<lambda>x. x]"
  let ?F1 = "[\<lambda>x :: fl. Fin 0, \<lambda>x. Fin 1]"
  have h: "exponential_inv ?k" "D ?k = 1" "length ?F \<le> length ?F1"
    by (simp_all add: exponential_inv_def)
  from Gram_matrix_formula [OF h, of ?quad "Fin 0" "Fin 1"]
  obtain l G where G: "lengthscale ?k = [l]"
    "Gram_matrix ?quad ?k ?F ?F1 (Fin 0) (Fin 1) = Inr G"
    "nrows G = length ?F" "ncols G = length ?F" "wf_array2 G"
    and en: "\<forall>i<length ?F. \<forall>j<length ?F.
          rows G ! i ! j = rows G ! j ! i
          \<and> rows G ! i ! j =
              fadd (fmul (fdiv l (fmul (Fin 2) (variance ?k)))
                      (?quad (\<lambda>x. fmul (fadd (fmul (fdiv (Fin 1) l) ((?F ! i) x)) ((?F1 ! i) x))
                                      (fadd (fmul (fdiv (Fin 1) l) ((?F ! j) x)) ((?F1 ! j) x)))
                         (Fin 0) (Fin 1)))
                (fmul (fdiv (Fin 1) (variance ?k)) (fmul ((?F ! i) (Fin 0)) ((?F ! j) (Fin 0))))"
    by blast
  from G(1) have l: "l = Fin 2" by simp
  have lt: "(0::nat) < length ?F" "(1::nat) < length ?F" by simp_all
  have e00: "rows G ! 0 ! 0 = Fin (5 / 16)"
    using en [rule_format, OF lt(1) lt(1), THEN conjunct2] by (simp add: l fsub_def)
  have e01: "rows G ! 0 ! 1 = Fin (5 / 32)"
    using en [rule_format, OF lt(1) lt(2), THEN conjunct2] by (simp add: l fsub_def)
  have e10: "rows G ! 1 ! 0 = Fin (5 / 32)"
    using en [rule_format, OF lt(2) lt(1), THEN conjunct2] by (simp add: l fsub_def)
  have e11: "rows G ! 1 ! 1 = Fin (19 / 48)"
    using en [rule_format, OF lt(2) lt(2), THEN conjunct2] by (simp add: l fsub_def)
  from G(3) obtain r0 r1 where r: "rows G = [r0, r1]"
    by (cases "rows G"; cases "tl (rows G)") (auto simp: nrows_def)
  with G(4,5) have "length r0 = 2" "length r1 = 2" by (simp_all add: wf_array2_def)
  then obtain a b c d where rr: "r0 = [a, b]" "r1 = [c, d]"
    by (cases r0; cases "tl r0"; cases r1; cases "tl r1") auto
  with r e00 e01 e10 e11 G(4) have "G = \<lparr>ncols = 2, rows = [[Fin (5 / 16), Fin (5 / 32)],
                                 [Fin (5 / 32), Fin (19 / 48)]]\<rparr>"
    by (cases G) simp
  with G(2) h(1,2) show ?thesis by (simp only: simp_thms)
qed

end
